theory Spec2Isabelle
  imports Complex_Main "HOL-Library.Multiset" "HOL-Library.Char_ord" "HOL-Library.List_Lexorder"
begin

section \<open>riana/peptides.py: the ReadPercolator class\<close>

text \<open>
  A shallow embedding of \<^verbatim>\<open>ReadPercolator\<close>. A pandas data frame is a list of rows
  (records) in frame order; the methods, which mutate \<^verbatim>\<open>self\<close> and return
  \<^verbatim>\<open>True\<close>, take the object state and return either the raised exception or the
  new state. Floating-point columns (q-values, masses, medians, predicted scans) are
  rationals; NaN cells are not modelled except where the code creates them itself (the
  left join of the match-across-runs loop), where they are \<open>None\<close>.
\<close>

subsection \<open>Rows\<close>

datatype error = KeyError | IndexError | ValueError | AssertionError | AttributeError | Exception

datatype pepid = Idx nat | Matched nat

datatype evidence = QValue | Soft | MatchAcrossRuns

text \<open>
  One line of a Percolator \<^verbatim>\<open>target.psms.txt\<close>, with the two columns stamped by
  \<^verbatim>\<open>read_all_project_psms\<close> (\<open>sample\<close>, \<open>concat\<close>). Columns that no method
  reads (score, PEP, flanking aa, ...) are left out.
\<close>

record psm =
  sequence :: string
  charge :: int
  scan :: int
  file_idx :: int
  sample :: string
  q_value :: rat
  protein_id :: string
  precursor_mz :: rat
  peptide_mass :: rat
  concat :: string

text \<open>Rows of \<^verbatim>\<open>curr_frac_id_df\<close> carry \<open>pep_id\<close>; rows of
  \<^verbatim>\<open>curr_frac_filtered_id_df\<close> carry \<open>evidence\<close> as well.\<close>

record frac_psm = psm +
  pep_id :: pepid

record out_psm = frac_psm +
  evidence :: evidence

subsection \<open>Strings\<close>

text \<open>\<^verbatim>\<open>s.split(c)\<close> for a one-character separator.\<close>

fun py_split :: "char \<Rightarrow> string \<Rightarrow> string list" where
  "py_split c [] = [[]]"
| "py_split c (x # xs) =
     (if x = c then [] # py_split c xs
      else (case py_split c xs of [] \<Rightarrow> [[x]] | h # t \<Rightarrow> (x # h) # t))"

text \<open>\<^verbatim>\<open>s.count(c)\<close> for a one-character pattern.\<close>

definition str_count :: "string \<Rightarrow> char \<Rightarrow> nat" where
  "str_count s c = length (filter (\<lambda>x. x = c) s)"

text \<open>The accessions of a \<open>protein id\<close> cell: the comma-separated parts (the spec's
  reading of the cell; the code only counts commas).\<close>

definition accessions :: "string \<Rightarrow> string list" where
  "accessions s = py_split (CHR '','') s"

subsection \<open>filter_df_by_args\<close>

text \<open>
  \<^verbatim>\<open>filter_df_by_args(df, peptide_q, unique_only)\<close>. The first argument says whether
  the frame has a \<^verbatim>\<open>percolator q-value\<close> column: without it the lookup raises
  \<^verbatim>\<open>KeyError\<close>, which the \<^verbatim>\<open>try\<close> swallows, leaving the frame as it is.
\<close>

definition filter_df_by_args ::
  "bool \<Rightarrow> ('a psm_scheme) list \<Rightarrow> rat \<Rightarrow> bool \<Rightarrow> ('a psm_scheme) list" where
  "filter_df_by_args has_q df peptide_q unique_only =
     (let df1 = (if has_q then filter (\<lambda>x. q_value x < peptide_q) df else df)
      in if unique_only
         then filter (\<lambda>x. str_count (protein_id x) (CHR '','') = 0) df1
         else df1)"

subsection \<open>make_master_match_list\<close>

text \<open>A row of \<^verbatim>\<open>match_across_runs_master\<close>: one group of the \<^verbatim>\<open>groupby(['concat'])\<close>.
  \<open>mc_file_idx\<close> is a float column unless the downcast below succeeds, hence a rational.\<close>

record mcand =
  mc_concat :: string
  num_samples :: nat
  mc_file_idx :: rat
  mc_precursor_mz :: rat
  mc_peptide_mass :: rat

text \<open>The object state: \<open>samples\<close> is \<^verbatim>\<open>project.samples\<close>; \<open>has_q\<close> says whether the
  loaded tables have the \<^verbatim>\<open>percolator q-value\<close> column (the frames derived from
  \<^verbatim>\<open>master_id_df\<close> inherit its columns). The constructor sets every frame to
  \<^verbatim>\<open>pd.DataFrame()\<close>, which has no rows and no columns: a frame with no rows stands for
  it, and reading a column of it raises \<^verbatim>\<open>KeyError\<close>. Only \<open>match_across_runs_master\<close>
  can be computed and empty, so there \<open>None\<close> is the constructor's frame.\<close>

record state =
  samples :: "string list"
  has_q :: bool
  master_id_df :: "psm list"
  match_across_runs_master :: "mcand list option"
  curr_sample_id_df :: "psm list"
  curr_frac_id_df :: "frac_psm list"
  curr_frac_filtered_id_df :: "out_psm list"

text \<open>pandas' \<^verbatim>\<open>median\<close>: the middle value of the sorted values, or the mean of the two
  middle ones; NaN (\<open>None\<close>) when there is no value.\<close>

definition median :: "rat list \<Rightarrow> rat option" where
  "median xs =
     (let s = sort xs; n = length s
      in if n = 0 then None
         else if odd n then Some (s ! (n div 2))
         else Some ((s ! (n div 2 - 1) + s ! (n div 2)) / 2))"

text \<open>The aggregation of one group: \<^verbatim>\<open>nunique\<close> of \<open>sample\<close>, medians of the rest.\<close>

definition agg_group :: "string \<Rightarrow> psm list \<Rightarrow> mcand option" where
  "agg_group k g =
     (case median (map (\<lambda>r. of_int (file_idx r)) g) of
        None \<Rightarrow> None
      | Some fi \<Rightarrow>
          (case median (map precursor_mz g) of
             None \<Rightarrow> None
           | Some mz \<Rightarrow>
               (case median (map peptide_mass g) of
                  None \<Rightarrow> None
                | Some pm \<Rightarrow>
                    Some \<lparr>mc_concat = k, num_samples = length (remdups (map sample g)),
                          mc_file_idx = fi, mc_precursor_mz = mz, mc_peptide_mass = pm\<rparr>)))"

text \<open>\<^verbatim>\<open>df.groupby(['concat']).agg(...).reset_index()\<close>: one row per key, the keys in
  ascending order.\<close>

definition groupby_agg :: "psm list \<Rightarrow> mcand list" where
  "groupby_agg df =
     List.map_filter (\<lambda>k. agg_group k (filter (\<lambda>r. concat r = k) df))
       (sort (remdups (map concat df)))"

text \<open>\<^verbatim>\<open>pd.to_numeric(col, downcast='integer')\<close> on a float column: the column becomes an
  integer column when every value is a whole number, and is left as it is otherwise.\<close>

definition to_numeric_downcast_integer :: "rat list \<Rightarrow> rat list" where
  "to_numeric_downcast_integer col =
     (if list_all (\<lambda>v. of_int \<lfloor>v\<rfloor> = v) col then map (\<lambda>v. of_int \<lfloor>v\<rfloor>) col else col)"

definition make_master_match_list ::
  "state \<Rightarrow> rat \<Rightarrow> bool \<Rightarrow> rat \<Rightarrow> error + state" where
  "make_master_match_list s peptide_q unique_only min_fraction =
     (if master_id_df s = [] then Inl Exception
      else
        let df = filter_df_by_args (has_q s) (master_id_df s) peptide_q unique_only;
            g = groupby_agg df;
            g1 = map2 (\<lambda>m v. m\<lparr>mc_file_idx := v\<rparr>) g
                   (to_numeric_downcast_integer (map mc_file_idx g));
            g2 = filter (\<lambda>x. of_nat (num_samples x) \<ge> of_nat (length (samples s)) * min_fraction) g1
        in Inr (s\<lparr>match_across_runs_master := Some g2\<rparr>))"

subsection \<open>What the class takes from outside this file\<close>

text \<open>
  \<^item> \<open>argsort\<close>: the sort behind \<^verbatim>\<open>DataFrame.sort_values\<close>, called without
    \<^verbatim>\<open>kind\<close>: pandas sorts one column with NumPy's \<^verbatim>\<open>argsort\<close>, by default
    its quicksort, which is not a stable sort. Given the column it returns the row
    positions in sorted order.
  \<^item> \<open>fit\<close>, \<open>predict\<close>: scikit-learn's
    \<^verbatim>\<open>BaggingRegressor(DecisionTreeRegressor(max_depth=5), n_estimators=25,
    random_state=np.random.RandomState(1))\<close>. The random state is made anew for every
    fit, so a fitted model is a function of the training pairs. Both calls can raise.
  \<^item> \<open>soft_threshold_q\<close>: \<^verbatim>\<open>params.soft_threshold_q\<close>.
\<close>

record 'm env =
  argsort :: "rat list \<Rightarrow> nat list"
  fit :: "(int \<times> int) list \<Rightarrow> error + 'm"
  predict :: "'m \<Rightarrow> int list \<Rightarrow> error + rat list"
  soft_threshold_q :: rat

text \<open>What \<^verbatim>\<open>sort_values\<close> relies on: the positions are a permutation of the row
  positions, and the column read in that order is ascending.\<close>

definition is_argsort :: "(rat list \<Rightarrow> nat list) \<Rightarrow> bool" where
  "is_argsort a \<longleftrightarrow>
     (\<forall>vs. mset (a vs) = mset [0..<length vs] \<and> sorted (map (\<lambda>i. vs ! i) (a vs)))"

definition sort_values :: "'m env \<Rightarrow> ('a \<Rightarrow> rat) \<Rightarrow> 'a list \<Rightarrow> 'a list" where
  "sort_values E f df = map (\<lambda>i. df ! i) (argsort E (map f df))"

text \<open>\<^verbatim>\<open>drop_duplicates(subset=[col])\<close>, which keeps the first row of every value.\<close>

fun drop_duplicates :: "('a \<Rightarrow> 'k) \<Rightarrow> 'a list \<Rightarrow> 'a list" where
  "drop_duplicates f [] = []"
| "drop_duplicates f (x # xs) = x # drop_duplicates f (filter (\<lambda>y. f y \<noteq> f x) xs)"

subsection \<open>NumPy's quicksort\<close>

text \<open>
  The default \<open>argsort\<close>, from NumPy's \<^verbatim>\<open>npysort/quicksort.c.src\<close>
  (\<^verbatim>\<open>aquicksort_double\<close>): an introsort on the array \<open>tosort\<close> of positions (here
  \<open>ts\<close>), comparing the values \<open>v[tosort[k]]\<close>. A partition of more than 17 cells
  is split around the median of its first, middle and last value; a smaller one is
  sorted by insertion; when the depth limit \<open>2 * npy_get_msb(num)\<close> is used up the
  partition is sorted by \<^verbatim>\<open>aheapsort\<close>. The C pointers \<open>pl\<close>, \<open>pr\<close>, \<open>pm\<close>, \<open>pi\<close>,
  \<open>pj\<close> are positions in \<open>ts\<close> (\<open>pi\<close> and \<open>pj\<close> are written \<open>ip\<close> and \<open>jp\<close>).
  The column has no NaN, so \<^verbatim>\<open>DOUBLE_LT\<close> is \<open><\<close>.
\<close>

text \<open>\<^verbatim>\<open>INTP_SWAP\<close>.\<close>

definition swap :: "nat list \<Rightarrow> nat \<Rightarrow> nat \<Rightarrow> nat list" where
  "swap ts i j = ts[i := ts ! j, j := ts ! i]"

text \<open>
  \<^verbatim>\<open>do ++pi; while (LT(v[*pi], vp));\<close> and \<^verbatim>\<open>do --pj; while (LT(vp, v[*pj]));\<close>.
  The C loops have no bound: they stop at the latest at \<open>hi = pr - 1\<close>, where the pivot
  is parked, and at \<open>lo = pl\<close>, whose value the median-of-three step has made at most
  the pivot. The bounds are written out here.
\<close>

function scan_up :: "rat list \<Rightarrow> nat list \<Rightarrow> rat \<Rightarrow> nat \<Rightarrow> nat \<Rightarrow> nat" where
  "scan_up v ts vp hi ip =
     (if Suc ip < hi \<and> v ! (ts ! Suc ip) < vp then scan_up v ts vp hi (Suc ip) else Suc ip)"
  by pat_completeness auto
termination
  by (relation "measure (\<lambda>(v, ts, vp, hi, ip). hi - ip)") auto

declare scan_up.simps [simp del]

function scan_down :: "rat list \<Rightarrow> nat list \<Rightarrow> rat \<Rightarrow> nat \<Rightarrow> nat \<Rightarrow> nat" where
  "scan_down v ts vp lo jp =
     (if lo < jp - 1 \<and> vp < v ! (ts ! (jp - 1)) then scan_down v ts vp lo (jp - 1) else jp - 1)"
  by pat_completeness auto
termination
  by (relation "measure (\<lambda>(v, ts, vp, lo, jp). jp)") auto

declare scan_down.simps [simp del]

lemma scan_up_gt: "ip < scan_up v ts vp hi ip"
proof (induction v ts vp hi ip rule: scan_up.induct)
  case (1 v ts vp hi ip)
  show ?case
  proof (cases "Suc ip < hi \<and> v ! (ts ! Suc ip) < vp")
    case True
    with 1 have "Suc ip < scan_up v ts vp hi (Suc ip)" by simp
    with True show ?thesis by (subst scan_up.simps) simp
  next
    case False
    then show ?thesis by (subst scan_up.simps) auto
  qed
qed

lemma scan_down_le: "scan_down v ts vp lo jp \<le> jp"
proof (induction v ts vp lo jp rule: scan_down.induct)
  case (1 v ts vp lo jp)
  show ?case
  proof (cases "lo < jp - 1 \<and> vp < v ! (ts ! (jp - 1))")
    case True
    with 1 have "scan_down v ts vp lo (jp - 1) \<le> jp - 1" by simp
    with True show ?thesis by (subst scan_down.simps) simp
  next
    case False
    then show ?thesis by (subst scan_down.simps) auto
  qed
qed

text \<open>The \<^verbatim>\<open>for (;;)\<close> loop of the partition; it returns the array and \<open>pi\<close>.\<close>

function part_loop ::
  "rat list \<Rightarrow> rat \<Rightarrow> nat \<Rightarrow> nat \<Rightarrow> nat list \<Rightarrow> nat \<Rightarrow> nat \<Rightarrow> nat list \<times> nat" where
  "part_loop v vp lo hi ts ip jp =
     (if scan_up v ts vp hi ip < scan_down v ts vp lo jp
      then part_loop v vp lo hi
             (swap ts (scan_up v ts vp hi ip) (scan_down v ts vp lo jp))
             (scan_up v ts vp hi ip) (scan_down v ts vp lo jp)
      else (ts, scan_up v ts vp hi ip))"
  by pat_completeness auto
termination
proof (relation "measure (\<lambda>(v, vp, lo, hi, ts, ip, jp). jp - ip)", goal_cases)
  case 1
  show ?case by simp
next
  case (2 v vp lo hi ts ip jp)
  with scan_up_gt [of ip v ts vp hi] scan_down_le [of v ts vp lo jp]
  show ?case by simp
qed

declare part_loop.simps [simp del]

lemma scan_up_le: "Suc ip \<le> hi \<Longrightarrow> scan_up v ts vp hi ip \<le> hi"
proof (induction v ts vp hi ip rule: scan_up.induct)
  case (1 v ts vp hi ip)
  show ?case
  proof (cases "Suc ip < hi \<and> v ! (ts ! Suc ip) < vp")
    case True
    with 1 have "scan_up v ts vp hi (Suc ip) \<le> hi" by simp
    with True show ?thesis by (subst scan_up.simps) simp
  next
    case False
    with 1(2) show ?thesis by (subst scan_up.simps) auto
  qed
qed

lemma part_loop_bounds:
  "ip < jp \<Longrightarrow> jp \<le> hi \<Longrightarrow>
     ip < snd (part_loop v vp lo hi ts ip jp) \<and> snd (part_loop v vp lo hi ts ip jp) \<le> hi"
proof (induction v vp lo hi ts ip jp rule: part_loop.induct)
  case (1 v vp lo hi ts ip jp)
  let ?i = "scan_up v ts vp hi ip" and ?j = "scan_down v ts vp lo jp"
  have i: "ip < ?i" "?i \<le> hi" using scan_up_gt scan_up_le 1(2,3) by auto
  have j: "?j \<le> hi" using scan_down_le [of v ts vp lo jp] 1(3) by simp
  show ?case
  proof (cases "?i < ?j")
    case True
    from 1(1) [OF True True j] i True show ?thesis
      by (subst (1 2) part_loop.simps) simp
  next
    case False
    with i show ?thesis by (subst (1 2) part_loop.simps) simp
  qed
qed

text \<open>One partition step of \<open>aquicksort\<close> on \<open>tosort[pl..pr]\<close>.\<close>

definition med3 :: "rat list \<Rightarrow> nat list \<Rightarrow> nat \<Rightarrow> nat \<Rightarrow> nat list" where
  "med3 v ts pl pr =
     (let pm = pl + (pr - pl) div 2;
          ts1 = (if v ! (ts ! pm) < v ! (ts ! pl) then swap ts pm pl else ts);
          ts2 = (if v ! (ts1 ! pr) < v ! (ts1 ! pm) then swap ts1 pr pm else ts1)
      in if v ! (ts2 ! pm) < v ! (ts2 ! pl) then swap ts2 pm pl else ts2)"

definition partition_np :: "rat list \<Rightarrow> nat list \<Rightarrow> nat \<Rightarrow> nat \<Rightarrow> nat list \<times> nat" where
  "partition_np v ts pl pr =
     (let pm = pl + (pr - pl) div 2;
          ts3 = med3 v ts pl pr;
          vp = v ! (ts3 ! pm);
          r = part_loop v vp pl (pr - 1) (swap ts3 pm (pr - 1)) pl (pr - 1)
      in (swap (fst r) (snd r) (pr - 1), snd r))"

lemma partition_np_bounds:
  assumes "Suc pl < pr"
  shows "pl < snd (partition_np v ts pl pr)" and "snd (partition_np v ts pl pr) < pr"
proof -
  define vp where "vp = v ! (med3 v ts pl pr ! (pl + (pr - pl) div 2))"
  define ts4 where "ts4 = swap (med3 v ts pl pr) (pl + (pr - pl) div 2) (pr - 1)"
  have s: "snd (partition_np v ts pl pr) = snd (part_loop v vp pl (pr - 1) ts4 pl (pr - 1))"
    by (simp add: partition_np_def Let_def vp_def ts4_def)
  from assms have "pl < pr - 1" "pr - 1 \<le> pr - 1" by simp_all
  from part_loop_bounds [OF this, of v vp pl ts4] assms s
  show "pl < snd (partition_np v ts pl pr)" and "snd (partition_np v ts pl pr) < pr"
    by linarith+
qed

text \<open>The insertion sort of \<open>aquicksort\<close> on \<open>tosort[pl..pr]\<close>.\<close>

function ins_inner :: "rat list \<Rightarrow> nat \<Rightarrow> nat \<Rightarrow> nat list \<Rightarrow> nat \<Rightarrow> nat list" where
  "ins_inner v vi pl ts jp =
     (if pl < jp \<and> v ! vi < v ! (ts ! (jp - 1))
      then ins_inner v vi pl (ts[jp := ts ! (jp - 1)]) (jp - 1)
      else ts[jp := vi])"
  by pat_completeness auto
termination
  by (relation "measure (\<lambda>(v, vi, pl, ts, jp). jp)") auto

declare ins_inner.simps [simp del]

function ins_outer :: "rat list \<Rightarrow> nat \<Rightarrow> nat \<Rightarrow> nat list \<Rightarrow> nat \<Rightarrow> nat list" where
  "ins_outer v pl pr ts ip =
     (if ip \<le> pr then ins_outer v pl pr (ins_inner v (ts ! ip) pl ts ip) (Suc ip) else ts)"
  by pat_completeness auto
termination
  by (relation "measure (\<lambda>(v, pl, pr, ts, ip). Suc pr - ip)") auto

declare ins_outer.simps [simp del]

text \<open>\<open>aheapsort\<close> on the \<open>n\<close> cells from \<open>tosort[b]\<close>; \<open>a[k]\<close> is the cell
  \<open>b + k - 1\<close>.\<close>

function sift :: "rat list \<Rightarrow> nat \<Rightarrow> nat \<Rightarrow> nat \<Rightarrow> nat list \<Rightarrow> nat \<Rightarrow> nat \<Rightarrow> nat list" where
  "sift v b n tmp ts i j =
     (if 0 < j \<and> j \<le> n
      then (if v ! tmp < v ! (ts ! (b + (if j < n \<and> v ! (ts ! (b + j - 1)) < v ! (ts ! (b + j))
                                         then j + 1 else j) - 1))
            then sift v b n tmp
                   (ts[b + i - 1 :=
                         ts ! (b + (if j < n \<and> v ! (ts ! (b + j - 1)) < v ! (ts ! (b + j))
                                    then j + 1 else j) - 1)])
                   (if j < n \<and> v ! (ts ! (b + j - 1)) < v ! (ts ! (b + j)) then j + 1 else j)
                   (2 * (if j < n \<and> v ! (ts ! (b + j - 1)) < v ! (ts ! (b + j))
                         then j + 1 else j))
            else ts[b + i - 1 := tmp])
      else ts[b + i - 1 := tmp])"
  by pat_completeness auto
termination
  by (relation "measure (\<lambda>(v, b, n, tmp, ts, i, j). Suc n - j)") auto

declare sift.simps [simp del]

fun heap_build :: "rat list \<Rightarrow> nat \<Rightarrow> nat \<Rightarrow> nat list \<Rightarrow> nat \<Rightarrow> nat list" where
  "heap_build v b n ts 0 = ts"
| "heap_build v b n ts (Suc l) =
     heap_build v b n (sift v b n (ts ! (b + Suc l - 1)) ts (Suc l) (2 * Suc l)) l"

fun heap_extract :: "rat list \<Rightarrow> nat \<Rightarrow> nat list \<Rightarrow> nat \<Rightarrow> nat list" where
  "heap_extract v b ts 0 = ts"
| "heap_extract v b ts (Suc m) =
     (if m = 0 then ts
      else heap_extract v b
             (sift v b m (ts ! (b + Suc m - 1)) (ts[b + Suc m - 1 := ts ! b]) 1 2) m)"

definition aheapsort :: "rat list \<Rightarrow> nat list \<Rightarrow> nat \<Rightarrow> nat \<Rightarrow> nat list" where
  "aheapsort v ts b n = heap_extract v b (heap_build v b n ts (n div 2)) n"

text \<open>\<open>npy_get_msb\<close>.\<close>

fun npy_get_msb :: "nat \<Rightarrow> nat" where
  "npy_get_msb n = (if n \<le> 1 then 0 else Suc (npy_get_msb (n div 2)))"

declare npy_get_msb.simps [simp del]

text \<open>The main loop of \<open>aquicksort\<close>, with its stack of pending partitions unfolded
  into recursion: \<open>popped\<close> says that the partition comes from the stack (or is the
  whole array), where the depth is tested; the smaller part of a partition is sorted
  next without that test, the larger part is pushed.\<close>

function aquicksort_range ::
  "rat list \<Rightarrow> bool \<Rightarrow> int \<Rightarrow> nat list \<Rightarrow> nat \<Rightarrow> nat \<Rightarrow> nat list" where
  "aquicksort_range v popped cdepth ts pl pr =
     (if popped \<and> cdepth < 0 then aheapsort v ts pl (pr - pl + 1)
      else if pr - pl > 16
      then (if snd (partition_np v ts pl pr) - pl < pr - snd (partition_np v ts pl pr)
            then aquicksort_range v True (cdepth - 1)
                   (aquicksort_range v False (cdepth - 1) (fst (partition_np v ts pl pr))
                      pl (snd (partition_np v ts pl pr) - 1))
                   (snd (partition_np v ts pl pr) + 1) pr
            else aquicksort_range v True (cdepth - 1)
                   (aquicksort_range v False (cdepth - 1) (fst (partition_np v ts pl pr))
                      (snd (partition_np v ts pl pr) + 1) pr)
                   pl (snd (partition_np v ts pl pr) - 1))
      else ins_outer v pl pr ts (pl + 1))"
  by pat_completeness auto
termination
proof (relation "measure (\<lambda>(v, popped, cdepth, ts, pl, pr). pr - pl)", goal_cases)
  case 1
  show ?case by simp
next
  case (2 v popped cdepth ts pl pr)
  then have "Suc pl < pr" by simp
  from partition_np_bounds [OF this, of v ts] show ?case by simp
next
  case (3 v popped cdepth ts pl pr)
  then have "Suc pl < pr" by simp
  from partition_np_bounds [OF this, of v ts] show ?case by simp
next
  case (4 v popped cdepth ts pl pr)
  then have "Suc pl < pr" by simp
  from partition_np_bounds [OF this, of v ts] show ?case by simp
next
  case (5 v popped cdepth ts pl pr)
  then have "Suc pl < pr" by simp
  from partition_np_bounds [OF this, of v ts] show ?case by simp
qed

declare aquicksort_range.simps [simp del]

text \<open>\<open>ndarray.argsort(kind='quicksort')\<close> on a float column without NaN.\<close>

definition np_argsort :: "rat list \<Rightarrow> nat list" where
  "np_argsort v =
     aquicksort_range v True (2 * int (npy_get_msb (length v))) [0..<length v] 0 (length v - 1)"

subsection \<open>get_current_sample_psms, get_current_fraction_psms\<close>

definition get_current_sample_psms :: "state \<Rightarrow> string \<Rightarrow> error + state" where
  "get_current_sample_psms s current_sample =
     (if master_id_df s = [] then Inl KeyError
      else if current_sample \<notin> set (map sample (master_id_df s)) then Inl AssertionError
      else Inr (s\<lparr>curr_sample_id_df :=
                    filter (\<lambda>r. sample r = current_sample) (master_id_df s)\<rparr>))"

definition with_pep_id :: "psm \<Rightarrow> pepid \<Rightarrow> frac_psm" where
  "with_pep_id r p =
     \<lparr>sequence = sequence r, charge = charge r, scan = scan r, file_idx = file_idx r,
      sample = sample r, q_value = q_value r, protein_id = protein_id r,
      precursor_mz = precursor_mz r, peptide_mass = peptide_mass r, concat = concat r,
      pep_id = p\<rparr>"

definition with_evidence :: "frac_psm \<Rightarrow> evidence \<Rightarrow> out_psm" where
  "with_evidence r e =
     \<lparr>sequence = sequence r, charge = charge r, scan = scan r, file_idx = file_idx r,
      sample = sample r, q_value = q_value r, protein_id = protein_id r,
      precursor_mz = precursor_mz r, peptide_mass = peptide_mass r, concat = concat r,
      pep_id = pep_id r, evidence = e\<rparr>"

text \<open>\<^verbatim>\<open>df.assign(pep_id=df.index)\<close> after \<^verbatim>\<open>reset_index(drop=True)\<close>.\<close>

definition assign_pep_id :: "psm list \<Rightarrow> frac_psm list" where
  "assign_pep_id df = map2 (\<lambda>r i. with_pep_id r (Idx i)) df [0..<length df]"

definition get_current_fraction_psms :: "'m env \<Rightarrow> state \<Rightarrow> int \<Rightarrow> error + state" where
  "get_current_fraction_psms E s idx =
     (if curr_sample_id_df s = [] then Inl KeyError
      else if idx \<notin> set (map file_idx (curr_sample_id_df s)) then Inl AssertionError
      else if \<not> has_q s then Inl KeyError
      else
        let df = filter (\<lambda>r. file_idx r = idx) (curr_sample_id_df s);
            df1 = drop_duplicates concat (sort_values E q_value df);
            df2 = sort_values E (\<lambda>r. of_int (scan r)) df1
        in Inr (s\<lparr>curr_frac_id_df := assign_pep_id df2\<rparr>))"

subsection \<open>filter_current_fraction_psms\<close>

text \<open>\<^verbatim>\<open>astype(np.int)\<close> on a float: the fraction is cut off (rounding toward zero).\<close>

definition py_trunc :: "rat \<Rightarrow> int" where
  "py_trunc r = (if r < 0 then \<lceil>r\<rceil> else \<lfloor>r\<rfloor>)"

text \<open>\<^verbatim>\<open>int(s)\<close> for a string without \<^verbatim>\<open>_\<close> (it is a part of a split on that
  character): surrounding white space is dropped, then an optional sign and one or more
  decimal digits are read; anything else raises \<^verbatim>\<open>ValueError\<close>.\<close>

definition is_space :: "char \<Rightarrow> bool" where
  "is_space c \<longleftrightarrow> c \<in> set [CHR '' '', CHR 0x09, CHR 0x0A, CHR 0x0B, CHR 0x0C, CHR 0x0D,
                             CHR 0x1C, CHR 0x1D, CHR 0x1E, CHR 0x1F]"

definition is_digit :: "char \<Rightarrow> bool" where
  "is_digit c \<longleftrightarrow> CHR ''0'' \<le> c \<and> c \<le> CHR ''9''"

definition py_strip :: "string \<Rightarrow> string" where
  "py_strip s = rev (dropWhile is_space (rev (dropWhile is_space s)))"

definition digits_val :: "string \<Rightarrow> int" where
  "digits_val ds = foldl (\<lambda>a c. 10 * a + (int (of_char c) - 48)) 0 ds"

definition py_int :: "string \<Rightarrow> error + int" where
  "py_int s =
     (let t = py_strip s;
          neg = (case t of [] \<Rightarrow> False | c # _ \<Rightarrow> c = CHR ''-'');
          ds = (case t of [] \<Rightarrow> [] | c # r \<Rightarrow> if c = CHR ''-'' \<or> c = CHR ''+'' then r else t)
      in if ds \<noteq> [] \<and> list_all is_digit ds
         then Inr (if neg then - digits_val ds else digits_val ds)
         else Inl ValueError)"

text \<open>\<^verbatim>\<open>int(b.split('_')[1])\<close> and \<^verbatim>\<open>str(b.split('_')[0])\<close>.\<close>

definition parse_charge :: "string \<Rightarrow> error + int" where
  "parse_charge b =
     (case py_split (CHR ''_'') b of
        _ # z # _ \<Rightarrow> py_int z
      | _ \<Rightarrow> Inl IndexError)"

definition parse_sequence :: "string \<Rightarrow> string" where
  "parse_sequence b = (case py_split (CHR ''_'') b of [] \<Rightarrow> [] | a # _ \<Rightarrow> a)"

text \<open>A list comprehension whose element expression can raise: the first error wins.\<close>

fun collect :: "(error + 'a) list \<Rightarrow> error + 'a list" where
  "collect [] = Inr []"
| "collect (Inl e # _) = Inl e"
| "collect (Inr x # xs) = (case collect xs of Inl e \<Rightarrow> Inl e | Inr ys \<Rightarrow> Inr (x # ys))"

text \<open>The soft-threshold rows: the q-value band, then the inner join on \<open>concat\<close> with
  the candidates of this fraction, labelled \<open>soft\<close>.\<close>

definition soft_rescue :: "'m env \<Rightarrow> frac_psm list \<Rightarrow> mcand list \<Rightarrow> rat \<Rightarrow> out_psm list" where
  "soft_rescue E df mc peptide_q =
     (let d1 = filter (\<lambda>x. q_value x \<ge> peptide_q) df;
          d2 = filter (\<lambda>x. q_value x < soft_threshold_q E) d1;
          d3 = List.maps (\<lambda>r. map (\<lambda>m. r) (filter (\<lambda>m. mc_concat m = concat r) mc)) d2
      in map (\<lambda>r. with_evidence r Soft) d3)"

text \<open>The loop body for one other sample. \<open>other_sample_df\<close>: its rows of this
  fraction, the best row per key, filtered.\<close>

definition other_sample_df ::
  "'m env \<Rightarrow> state \<Rightarrow> int \<Rightarrow> rat \<Rightarrow> bool \<Rightarrow> string \<Rightarrow> psm list" where
  "other_sample_df E s idx peptide_q unique_only each_sample =
     filter_df_by_args True
       (drop_duplicates concat
          (sort_values E q_value
             (filter (\<lambda>r. sample r = each_sample \<and> file_idx r = idx) (master_id_df s))))
       peptide_q unique_only"

text \<open>\<open>compare_df\<close>: the inner join with the filtered rows of the current fraction,
  as pairs \<open>(scan_x, scan_y)\<close>, sorted by \<open>scan_x\<close>.\<close>

definition compare_df :: "'m env \<Rightarrow> psm list \<Rightarrow> out_psm list \<Rightarrow> (int \<times> int) list" where
  "compare_df E other filt =
     sort_values E (\<lambda>p. of_int (fst p))
       (List.maps (\<lambda>ot. map (\<lambda>c. (scan ot, scan c)) (filter (\<lambda>c. concat c = concat ot) filt))
          other)"

text \<open>\<^verbatim>\<open>scan_list[~np.isnan(scan_list)] = ...\<close>: the cells that are not NaN take the
  predictions in order.\<close>

fun fill_predictions :: "int option list \<Rightarrow> rat list \<Rightarrow> rat option list" where
  "fill_predictions [] ps = []"
| "fill_predictions (None # xs) ps = None # fill_predictions xs ps"
| "fill_predictions (Some x # xs) [] = None # fill_predictions xs []"
| "fill_predictions (Some x # xs) (p # ps) = Some p # fill_predictions xs ps"

text \<open>
  The column \<^verbatim>\<open>pred_df[each_sample]\<close>. The left join of the candidates with
  \<open>other_sample_df\<close> (which has one row per key) gives each candidate the peer's scan or
  NaN. When no cell is NaN the scan column is an integer array, and storing the
  predictions into it cuts their fractions off; with a NaN it is a float array.
  A list of predictions of another length than the cells does not fit
  (\<^verbatim>\<open>ValueError\<close>). \<^verbatim>\<open>r2_score\<close> and the log calls only read \<open>X\<close>, \<open>y\<close>, \<open>y_hat\<close>
  and are left out.
\<close>

definition peer_column ::
  "'m env \<Rightarrow> psm list \<Rightarrow> out_psm list \<Rightarrow> string list \<Rightarrow> error + rat option list" where
  "peer_column E other filt mar_candidates =
     (case fit E (compare_df E other filt) of
        Inl e \<Rightarrow> Inl e
      | Inr regr \<Rightarrow>
          (case predict E regr (map fst (compare_df E other filt)) of
             Inl e \<Rightarrow> Inl e
           | Inr y_hat \<Rightarrow>
               (let scan_list = map (\<lambda>k. map_option scan (find (\<lambda>ot. concat ot = k) other))
                                  mar_candidates;
                    xs = List.map_filter (\<lambda>x. x) scan_list
                in case predict E regr xs of
                     Inl e \<Rightarrow> Inl e
                   | Inr ps \<Rightarrow>
                       if length ps \<noteq> length xs then Inl ValueError
                       else Inr (fill_predictions scan_list
                              (if list_all (\<lambda>x. x \<noteq> None) scan_list
                               then map (\<lambda>p. of_int (py_trunc p)) ps else ps)))))"

text \<open>The loop over \<open>sample_names\<close>; \<open>pred\<close> is \<open>pred_df\<close>, a row per candidate.\<close>

fun mar_loop ::
  "(string \<Rightarrow> error + rat option list) \<Rightarrow> string \<Rightarrow> (string \<times> rat option list) list \<Rightarrow>
   string list \<Rightarrow> error + (string \<times> rat option list) list" where
  "mar_loop col current_sample pred [] = Inr pred"
| "mar_loop col current_sample pred (each_sample # rest) =
     (if each_sample = current_sample then mar_loop col current_sample pred rest
      else (case col each_sample of
              Inl e \<Rightarrow> Inl e
            | Inr c \<Rightarrow>
                mar_loop col current_sample (map2 (\<lambda>(k, vs) v. (k, vs @ [v])) pred c) rest))"

text \<open>
  \<open>mar_out_df\<close>: the rows of \<open>pred_df\<close> with a prediction
  (\<^verbatim>\<open>dropna(axis=0, how='all')\<close>), each with the median of its predictions
  (\<^verbatim>\<open>median(axis=1)\<close> skips NaN) converted by \<^verbatim>\<open>astype(np.int)\<close>. The masses are
  looked up in the candidates by key; a key that several candidates carry gives several
  rows, and then the columns differ in length (\<^verbatim>\<open>ValueError\<close>).
\<close>

definition mar_out_df ::
  "mcand list \<Rightarrow> int \<Rightarrow> string \<Rightarrow> (string \<times> rat option list) list \<Rightarrow> error + out_psm list" where
  "mar_out_df mc fidx current_sample pred =
     (let kept = List.map_filter
                   (\<lambda>(k, vs). map_option (Pair k) (median (List.map_filter (\<lambda>x. x) vs))) pred
      in case collect (map (\<lambda>(k, m). parse_charge k) kept) of
           Inl e \<Rightarrow> Inl e
         | Inr zs \<Rightarrow>
             (let looked = List.maps (\<lambda>(k, m). filter (\<lambda>c. mc_concat c = k) mc) kept
              in if length looked \<noteq> length kept then Inl ValueError
                 else Inr (map (\<lambda>(((k, m), z), (c, i)).
                        \<lparr>sequence = parse_sequence k, charge = z, scan = py_trunc m,
                         file_idx = fidx, sample = current_sample, q_value = 0,
                         protein_id = ''NA'', precursor_mz = mc_precursor_mz c,
                         peptide_mass = mc_peptide_mass c, concat = k,
                         pep_id = Matched i, evidence = MatchAcrossRuns\<rparr>)
                      (zip (zip kept zs) (zip looked [0..<length kept])))))"

text \<open>The \<^verbatim>\<open>if match_across_runs:\<close> block. \<open>sample_names\<close> is
  \<^verbatim>\<open>list(set(...))\<close>, whose order Python leaves open; one order of the distinct
  names stands for it.\<close>

definition match_across_runs_rows ::
  "'m env \<Rightarrow> state \<Rightarrow> int \<Rightarrow> mcand list \<Rightarrow> out_psm list \<Rightarrow> rat \<Rightarrow> bool \<Rightarrow> error + out_psm list" where
  "match_across_runs_rows E s idx mc filt peptide_q unique_only =
     (let mar_candidates = filter (\<lambda>p. p \<notin> set (map concat filt)) (map mc_concat mc)
      in if master_id_df s = [] then Inl KeyError
         else
           (let sample_names = remdups (map sample (master_id_df s))
            in case filt of
                 [] \<Rightarrow> Inl KeyError
               | f0 # _ \<Rightarrow>
                   (case mar_loop
                           (\<lambda>each_sample.
                              if has_q s
                              then peer_column E
                                     (other_sample_df E s idx peptide_q unique_only each_sample)
                                     filt mar_candidates
                              else Inl KeyError)
                           (sample f0) (map (\<lambda>k. (k, [])) mar_candidates) sample_names of
                      Inl e \<Rightarrow> Inl e
                    | Inr pred \<Rightarrow> mar_out_df mc (file_idx f0) (sample f0) pred)))"

definition filter_current_fraction_psms ::
  "'m env \<Rightarrow> state \<Rightarrow> rat \<Rightarrow> bool \<Rightarrow> bool \<Rightarrow> bool \<Rightarrow> error + state" where
  "filter_current_fraction_psms E s peptide_q unique_only use_soft_threshold match_across_runs =
     (let filt0 = map (\<lambda>r. with_evidence r QValue)
                    (filter_df_by_args (has_q s) (curr_frac_id_df s) peptide_q unique_only)
      in case curr_frac_id_df s of
           [] \<Rightarrow> Inl KeyError
         | r0 # _ \<Rightarrow>
             if curr_sample_id_df s = [] then Inl KeyError
             else if file_idx r0 \<notin> set (map file_idx (curr_sample_id_df s))
             then Inl AssertionError
             else
               (case match_across_runs_master s of
                  None \<Rightarrow> Inl AttributeError
                | Some master \<Rightarrow>
                    (let mc = filter (\<lambda>m. mc_file_idx m = of_int (file_idx r0)) master
                     in if use_soft_threshold \<and> \<not> has_q s then Inl KeyError
                        else
                          (let filt1 = (if use_soft_threshold
                                        then filt0 @ soft_rescue E (curr_frac_id_df s) mc peptide_q
                                        else filt0)
                           in if match_across_runs
                              then (case match_across_runs_rows E s (file_idx r0) mc filt1
                                           peptide_q unique_only of
                                      Inl e \<Rightarrow> Inl e
                                    | Inr rows \<Rightarrow>
                                        Inr (s\<lparr>curr_frac_filtered_id_df := filt1 @ rows\<rparr>))
                              else Inr (s\<lparr>curr_frac_filtered_id_df := filt1\<rparr>)))))"

text \<open>The frame \<^verbatim>\<open>curr_frac_filtered_id_df\<close> as it stands before the
  \<^verbatim>\<open>if match_across_runs:\<close> block, for the candidates \<open>mc\<close> of the fraction.\<close>

definition filt1_of ::
  "'m env \<Rightarrow> state \<Rightarrow> mcand list \<Rightarrow> rat \<Rightarrow> bool \<Rightarrow> bool \<Rightarrow> out_psm list" where
  "filt1_of E s mc q u soft =
     (let filt0 = map (\<lambda>r. with_evidence r QValue)
                    (filter_df_by_args (has_q s) (curr_frac_id_df s) q u)
      in if soft then filt0 @ soft_rescue E (curr_frac_id_df s) mc q else filt0)"

text \<open>The part of \<open>filter_current_fraction_psms\<close> before the
  \<^verbatim>\<open>if match_across_runs:\<close> block: the fraction index \<open>idx\<close>, \<open>match_candidates\<close>
  and the frame so far.\<close>

definition before_mar ::
  "'m env \<Rightarrow> state \<Rightarrow> rat \<Rightarrow> bool \<Rightarrow> bool \<Rightarrow> error + (int \<times> mcand list \<times> out_psm list)" where
  "before_mar E s q u soft =
     (case curr_frac_id_df s of
        [] \<Rightarrow> Inl KeyError
      | r0 # _ \<Rightarrow>
          if curr_sample_id_df s = [] then Inl KeyError
          else if file_idx r0 \<notin> set (map file_idx (curr_sample_id_df s))
          then Inl AssertionError
          else
            (case match_across_runs_master s of
               None \<Rightarrow> Inl AttributeError
             | Some master \<Rightarrow>
                 if soft \<and> \<not> has_q s then Inl KeyError
                 else Inr (file_idx r0,
                        filter (\<lambda>m. mc_file_idx m = of_int (file_idx r0)) master,
                        filt1_of E s (filter (\<lambda>m. mc_file_idx m = of_int (file_idx r0)) master)
                          q u soft)))"

subsection \<open>Example inputs\<close>

definition mk_psm :: "string \<Rightarrow> int \<Rightarrow> int \<Rightarrow> int \<Rightarrow> string \<Rightarrow> rat \<Rightarrow> string \<Rightarrow> psm" where
  "mk_psm sq z sc fi sa q pr =
     \<lparr>sequence = sq, charge = z, scan = sc, file_idx = fi, sample = sa, q_value = q,
      protein_id = pr, precursor_mz = 500, peptide_mass = 998,
      concat = sq @ ''_'' @ (if z = 2 then ''2'' else ''3'')\<rparr>"

text \<open>The object after \<^verbatim>\<open>read_all_project_psms\<close>.\<close>

definition init_state :: "string list \<Rightarrow> psm list \<Rightarrow> state" where
  "init_state ss df =
     \<lparr>samples = ss, has_q = True, master_id_df = df, match_across_runs_master = None,
      curr_sample_id_df = [], curr_frac_id_df = [], curr_frac_filtered_id_df = []\<rparr>"

text \<open>One peptide, found in fraction 1 of sample A and in fraction 2 of sample B.\<close>

definition ex_split_fractions :: state where
  "ex_split_fractions = init_state [''A'', ''B'', ''C'']
     [mk_psm ''PEPTIDE'' 2 10 1 ''A'' (1/1000) ''P1'',
      mk_psm ''PEPTIDE'' 2 12 2 ''B'' (1/1000) ''P1'']"

text \<open>
  A stable \<open>argsort\<close> (the positions sorted by value, equal values in frame order),
  and a stand-in regressor: it predicts the mean of the training targets everywhere and
  rejects an empty array. On a training set of one pair it is the library's regressor
  (every bootstrap sample of one pair is that pair, so every tree is a single leaf
  holding its target), and the library rejects an array of no samples with
  \<^verbatim>\<open>ValueError\<close> in \<^verbatim>\<open>fit\<close> and in \<^verbatim>\<open>predict\<close>. The examples fit on such
  training sets only.
\<close>

definition stable_argsort :: "rat list \<Rightarrow> nat list" where
  "stable_argsort vs = sort_key (\<lambda>i. vs ! i) [0..<length vs]"

definition mean_fit :: "(int \<times> int) list \<Rightarrow> error + rat" where
  "mean_fit xy =
     (if xy = [] then Inl ValueError
      else Inr (sum_list (map (\<lambda>p. of_int (snd p)) xy) / of_nat (length xy)))"

definition const_predict :: "rat \<Rightarrow> int list \<Rightarrow> error + rat list" where
  "const_predict m xs = (if xs = [] then Inl ValueError else Inr (map (\<lambda>x. m) xs))"

definition ex_env :: "rat env" where
  "ex_env = \<lparr>argsort = stable_argsort, fit = mean_fit, predict = const_predict,
            soft_threshold_q = 1/20\<rparr>"

text \<open>The three calls that lead to \<^verbatim>\<open>filter_current_fraction_psms\<close>.\<close>

definition prepare :: "'m env \<Rightarrow> state \<Rightarrow> rat \<Rightarrow> bool \<Rightarrow> rat \<Rightarrow> string \<Rightarrow> int \<Rightarrow> error + state" where
  "prepare E s peptide_q unique_only min_fraction current_sample idx =
     (case make_master_match_list s peptide_q unique_only min_fraction of
        Inl e \<Rightarrow> Inl e
      | Inr s1 \<Rightarrow>
          (case get_current_sample_psms s1 current_sample of
             Inl e \<Rightarrow> Inl e
           | Inr s2 \<Rightarrow> get_current_fraction_psms E s2 idx))"

text \<open>The whole run for one fraction of one sample; the result is
  \<^verbatim>\<open>curr_frac_filtered_id_df\<close>.\<close>

definition pipeline ::
  "'m env \<Rightarrow> state \<Rightarrow> rat \<Rightarrow> bool \<Rightarrow> rat \<Rightarrow> string \<Rightarrow> int \<Rightarrow> bool \<Rightarrow> bool \<Rightarrow> error + out_psm list" where
  "pipeline E s peptide_q unique_only min_fraction current_sample idx use_soft mar =
     (case prepare E s peptide_q unique_only min_fraction current_sample idx of
        Inl e \<Rightarrow> Inl e
      | Inr s1 \<Rightarrow>
          (case filter_current_fraction_psms E s1 peptide_q unique_only use_soft mar of
             Inl e \<Rightarrow> Inl e
           | Inr s2 \<Rightarrow> Inr (curr_frac_filtered_id_df s2)))"

text \<open>Three samples with one fraction each. \<open>PEPTIDE_2\<close> is found in A and C and not in
  B; B shares \<open>AAK_2\<close> with A only and \<open>CCK_3\<close> with C only.\<close>

definition ex_three :: state where
  "ex_three = init_state [''A'', ''B'', ''C'']
     [mk_psm ''AAK'' 2 10 0 ''A'' (1/1000) ''P1'',
      mk_psm ''PEPTIDE'' 2 20 0 ''A'' (1/1000) ''P2'',
      mk_psm ''AAK'' 2 100 0 ''B'' (1/1000) ''P1'',
      mk_psm ''CCK'' 3 103 0 ''B'' (1/1000) ''P3'',
      mk_psm ''CCK'' 3 11 0 ''C'' (1/1000) ''P3'',
      mk_psm ''PEPTIDE'' 2 21 0 ''C'' (1/1000) ''P2'']"

text \<open>The object after \<^verbatim>\<open>get_current_sample_psms\<close> when all records are of one sample.\<close>

definition sample_state :: "string list \<Rightarrow> psm list \<Rightarrow> state" where
  "sample_state ss df = (init_state ss df)\<lparr>curr_sample_id_df := df\<rparr>"

text \<open>A spectrum searched at two charge states: two keys, one scan.\<close>

definition ex_same_scan :: state where
  "ex_same_scan = sample_state [''A'']
     [mk_psm ''AAK'' 2 10 0 ''A'' (1/1000) ''P1'',
      mk_psm ''AAK'' 3 10 0 ''A'' (2/1000) ''P1'']"

text \<open>A fraction with two rows of one key.\<close>

definition ex_dups :: state where
  "ex_dups = sample_state [''A'']
     [mk_psm ''AAK'' 2 30 0 ''A'' (5/1000) ''P1'',
      mk_psm ''AAK'' 2 12 0 ''A'' (1/1000) ''P1'',
      mk_psm ''CCK'' 3 20 0 ''A'' (2/1000) ''P3'']"

text \<open>Sample B has one row, with a q-value between the threshold and the soft
  threshold, of a peptide that A identifies; A also identifies \<open>PEPTIDE_2\<close>.\<close>

definition ex_soft :: state where
  "ex_soft = init_state [''A'', ''B'']
     [mk_psm ''AAK'' 2 10 0 ''A'' (1/1000) ''P1'',
      mk_psm ''PEPTIDE'' 2 20 0 ''A'' (1/1000) ''P2'',
      mk_psm ''AAK'' 2 100 0 ''B'' (2/100) ''P1'']"

text \<open>Sample C shares no key with sample B; sample A shares \<open>AAK_2\<close> with it.\<close>

definition ex_no_overlap :: state where
  "ex_no_overlap = init_state [''A'', ''B'', ''C'']
     [mk_psm ''AAK'' 2 10 0 ''A'' (1/1000) ''P1'',
      mk_psm ''PEPTIDE'' 2 20 0 ''A'' (1/1000) ''P2'',
      mk_psm ''AAK'' 2 100 0 ''B'' (1/1000) ''P1'',
      mk_psm ''PEPTIDE'' 2 21 0 ''C'' (1/1000) ''P2'']"

text \<open>A fraction where the best row of \<open>AAK_2\<close> maps to two proteins and a worse row of
  the same key maps to one.\<close>

definition ex_shared :: state where
  "ex_shared = (sample_state [''A'']
     [mk_psm ''AAK'' 2 10 0 ''A'' (1/1000) ''P1,P2'',
      mk_psm ''AAK'' 2 15 0 ''A'' (2/1000) ''P1'',
      mk_psm ''CCK'' 3 20 0 ''A'' (1/1000) ''P3''])\<lparr>match_across_runs_master := Some []\<rparr>"

text \<open>One candidate row of the master list, for \<open>PEPTIDE_2\<close> in fraction 0.\<close>

definition ex_cand :: mcand where
  "ex_cand = \<lparr>mc_concat = ''PEPTIDE_2'', num_samples = 2, mc_file_idx = 0,
              mc_precursor_mz = 500, mc_peptide_mass = 998\<rparr>"

text \<open>The libraries as they are: NumPy's sort in place of the stable one.\<close>

definition np_env :: "rat env" where
  "np_env = ex_env\<lparr>argsort := np_argsort\<rparr>"

text \<open>A fraction of 18 rows with one q-value; rows 1 and 15 (scans 11 and 25) have the
  same key \<open>AK_2\<close>, all other keys differ.\<close>

definition ex_ties :: state where
  "ex_ties = sample_state [''A'']
     (map (\<lambda>i. mk_psm (replicate (if i = 15 then 1 else i) (CHR ''A'') @ ''K'') 2
                 (10 + int i) 0 ''A'' (1/1000) ''P1'') [0..<18])"

section \<open>Properties\<close>

subsection \<open>Strings\<close>

lemma py_split_nonempty: "py_split c s \<noteq> []"
  by (induction s) (auto split: list.splits)

lemma length_py_split: "length (py_split c s) = Suc (str_count s c)"
proof (induction s)
  case Nil
  then show ?case by (simp add: str_count_def)
next
  case (Cons x xs)
  then show ?case
    using py_split_nonempty [of c xs]
    by (cases "py_split c xs") (auto simp: str_count_def)
qed

lemma one_accession_iff: "length (accessions s) = Suc 0 \<longleftrightarrow> str_count s (CHR '','') = 0"
  by (simp add: accessions_def length_py_split)

subsection \<open>The confidence filter\<close>

text \<open>
  C6. The confidence filter keeps exactly the rows whose q-value is strictly below the
  threshold; a frame without the q-value column passes through unfiltered, with no
  error; with \<open>unique_only\<close> it keeps, of those, only the rows whose protein id cell
  holds exactly one accession.
\<close>

theorem C6_filter_df_by_args:
  "filter_df_by_args True df q False = filter (\<lambda>x. q_value x < q) df \<and>
   filter_df_by_args False df q False = df \<and>
   filter_df_by_args h df q True =
     filter (\<lambda>x. length (accessions (protein_id x)) = 1) (filter_df_by_args h df q False)"
  by (simp add: filter_df_by_args_def one_accession_iff)

subsection \<open>The master list\<close>

lemma to_numeric_values: "to_numeric_downcast_integer col = col"
  unfolding to_numeric_downcast_integer_def by (induction col) auto

lemma map2_file_idx_same: "map2 (\<lambda>m v. m\<lparr>mc_file_idx := v\<rparr>) g (map mc_file_idx g) = g"
  by (induction g) auto

lemma make_master_match_list_eq:
  "make_master_match_list s q u m =
     (if master_id_df s = [] then Inl Exception
      else Inr (s\<lparr>match_across_runs_master :=
        Some (filter (\<lambda>x. of_nat (length (samples s)) * m \<le> of_nat (num_samples x))
               (groupby_agg (filter_df_by_args (has_q s) (master_id_df s) q u)))\<rparr>))"
  by (simp add: make_master_match_list_def Let_def to_numeric_values map2_file_idx_same)

lemma ex_split_master:
  "make_master_match_list ex_split_fractions (1/100) True m =
     Inr (ex_split_fractions\<lparr>match_across_runs_master :=
       Some (filter (\<lambda>x. 3 * m \<le> of_nat (num_samples x))
         [\<lparr>mc_concat = ''PEPTIDE_2'', num_samples = 2, mc_file_idx = 3/2,
           mc_precursor_mz = 500, mc_peptide_mass = 998\<rparr>])\<rparr>)"
  by (simp add: make_master_match_list_eq ex_split_fractions_def init_state_def mk_psm_def
      filter_df_by_args_def str_count_def groupby_agg_def agg_group_def median_def
      List.map_filter_def)

text \<open>
  C7 (the code at the failing input). A peptide found in fraction 1 of one sample and in
  fraction 2 of another has the median fraction 3/2; \<open>make_master_match_list\<close> keeps the
  group with \<open>num_samples = 2\<close> and with \<open>file_idx = 3/2\<close>, which is no integer: the
  downcast leaves a column with a fractional value as it is.
\<close>

theorem C7_fractional_median_kept:
  "\<exists>s' m. make_master_match_list ex_split_fractions (1/100) True (1/4) = Inr s' \<and>
     match_across_runs_master s' = Some [m] \<and> num_samples m = 2 \<and>
     mc_file_idx m = 3/2 \<and> mc_file_idx m \<noteq> of_int \<lfloor>mc_file_idx m\<rfloor>"
proof -
  have "\<lfloor>3/2 :: rat\<rfloor> = 1" by linarith
  then have "(3/2 :: rat) \<noteq> of_int \<lfloor>3/2 :: rat\<rfloor>" by simp
  then show ?thesis by (simp add: ex_split_master)
qed

text \<open>
  C8. For quorum values \<open>m1 \<le> m2\<close> and the same records and thresholds, the master list
  built with \<open>m2\<close> is a subset of the one built with \<open>m1\<close>, and is no longer.
\<close>

theorem C8_quorum_monotone:
  assumes "m1 \<le> m2" and "make_master_match_list s q u m1 = Inr s1"
  shows "\<exists>s2 ms1 ms2. make_master_match_list s q u m2 = Inr s2 \<and>
           match_across_runs_master s1 = Some ms1 \<and> match_across_runs_master s2 = Some ms2 \<and>
           set ms2 \<subseteq> set ms1 \<and> length ms2 \<le> length ms1"
proof -
  let ?g = "groupby_agg (filter_df_by_args (has_q s) (master_id_df s) q u)"
  let ?n = "of_nat (length (samples s)) :: rat"
  let ?P = "\<lambda>m x. ?n * m \<le> of_nat (num_samples x)"
  from assms(2) have ne: "master_id_df s \<noteq> []"
    by (auto simp: make_master_match_list_eq split: if_splits)
  with assms(2) have s1: "match_across_runs_master s1 = Some (filter (?P m1) ?g)"
    by (auto simp: make_master_match_list_eq)
  have "?n * m1 \<le> ?n * m2" using assms(1) by (simp add: mult_left_mono)
  then have imp: "?P m2 x \<Longrightarrow> ?P m1 x" for x :: mcand by simp
  have eq: "filter (?P m2) ?g = filter (?P m2) (filter (?P m1) ?g)"
    using imp by (auto intro: filter_cong)
  have "set (filter (?P m2) ?g) \<subseteq> set (filter (?P m1) ?g)" using imp by auto
  moreover have "length (filter (?P m2) ?g) \<le> length (filter (?P m1) ?g)"
    by (subst eq) (rule length_filter_le)
  ultimately show ?thesis using ne s1 by (simp add: make_master_match_list_eq)
qed

theorem C8_quorum_monotone_witness:
  "(1/4 :: rat) \<le> 1 \<and>
   (\<exists>s1 ms1. make_master_match_list ex_split_fractions (1/100) True (1/4) = Inr s1 \<and>
      match_across_runs_master s1 = Some ms1 \<and> length ms1 = 1) \<and>
   (\<exists>s2 ms2. make_master_match_list ex_split_fractions (1/100) True 1 = Inr s2 \<and>
      match_across_runs_master s2 = Some ms2 \<and> length ms2 \<le> 1)"
proof -
  have le: "(1/4 :: rat) \<le> 1" by simp
  have r1: "make_master_match_list ex_split_fractions (1/100) True (1/4) =
      Inr (ex_split_fractions\<lparr>match_across_runs_master :=
       Some [\<lparr>mc_concat = ''PEPTIDE_2'', num_samples = 2, mc_file_idx = 3/2,
           mc_precursor_mz = 500, mc_peptide_mass = 998\<rparr>]\<rparr>)"
    by (simp add: ex_split_master)
  from C8_quorum_monotone [OF le r1] show ?thesis
    using r1 by auto
qed

subsection \<open>Sorting and dropping duplicates\<close>


lemma is_argsort_stable: "is_argsort stable_argsort"
  by (simp add: is_argsort_def stable_argsort_def)

lemma argsort_set:
  assumes "is_argsort a" shows "set (a vs) = {0..<length vs}"
proof -
  from assms have "mset (a vs) = mset [0..<length vs]" by (simp add: is_argsort_def)
  then have "set_mset (mset (a vs)) = set_mset (mset [0..<length vs])" by simp
  then show ?thesis by simp
qed

lemma mset_sort_values:
  assumes "is_argsort (argsort E)"
  shows "mset (sort_values E f df) = mset df"
proof -
  have "mset (map (\<lambda>i. df ! i) (argsort E (map f df))) =
        image_mset (\<lambda>i. df ! i) (mset (argsort E (map f df)))" by simp
  also have "\<dots> = image_mset (\<lambda>i. df ! i) (mset [0..<length (map f df)])"
    using assms by (simp add: is_argsort_def)
  also have "\<dots> = mset (map (\<lambda>i. df ! i) [0..<length df])" by simp
  also have "\<dots> = mset df" by (simp add: map_nth)
  finally show ?thesis by (simp add: sort_values_def)
qed

lemma set_sort_values:
  "is_argsort (argsort E) \<Longrightarrow> set (sort_values E f df) = set df"
  using mset_sort_values [of E f df] by (metis set_mset_mset)

lemma length_sort_values:
  "is_argsort (argsort E) \<Longrightarrow> length (sort_values E f df) = length df"
  using mset_sort_values [of E f df] by (metis size_mset)

lemma sorted_sort_values:
  assumes "is_argsort (argsort E)"
  shows "sorted (map f (sort_values E f df))"
proof -
  let ?is = "argsort E (map f df)"
  have in_range: "i < length df" if "i \<in> set ?is" for i
    using that argsort_set [OF assms, of "map f df"] by simp
  have "map f (sort_values E f df) = map (\<lambda>i. map f df ! i) ?is"
    using in_range by (simp add: sort_values_def)
  moreover have "sorted (map (\<lambda>i. map f df ! i) ?is)"
    using assms by (simp add: is_argsort_def)
  ultimately show ?thesis by simp
qed

lemma set_drop_duplicates: "set (drop_duplicates f xs) \<subseteq> set xs"
  by (induction f xs rule: drop_duplicates.induct) auto

lemma keys_drop_duplicates: "f ` set (drop_duplicates f xs) = f ` set xs"
  by (induction f xs rule: drop_duplicates.induct) auto

lemma distinct_drop_duplicates: "distinct (map f (drop_duplicates f xs))"
proof (induction f xs rule: drop_duplicates.induct)
  case (1 f)
  then show ?case by simp
next
  case (2 f x xs)
  have "f x \<notin> f ` set (drop_duplicates f (filter (\<lambda>y. f y \<noteq> f x) xs))"
    using set_drop_duplicates [of f "filter (\<lambda>y. f y \<noteq> f x) xs"] by auto
  with 2 show ?case by simp
qed

lemma drop_duplicates_first:
  "x \<in> set (drop_duplicates f xs) \<Longrightarrow> find (\<lambda>y. f y = f x) xs = Some x"
proof (induction f xs rule: drop_duplicates.induct)
  case (1 f)
  then show ?case by simp
next
  case (2 f y ys)
  show ?case
  proof (cases "x = y")
    case True
    then show ?thesis by simp
  next
    case False
    with 2 have mem: "x \<in> set (drop_duplicates f (filter (\<lambda>z. f z \<noteq> f y) ys))" by simp
    then have "x \<in> set (filter (\<lambda>z. f z \<noteq> f y) ys)"
      using set_drop_duplicates by fastforce
    then have ne: "f x \<noteq> f y" by simp
    from 2 mem have "find (\<lambda>z. f z = f x) (filter (\<lambda>z. f z \<noteq> f y) ys) = Some x" by simp
    moreover have "find (\<lambda>z. f z = f x) (filter (\<lambda>z. f z \<noteq> f y) ys) = find (\<lambda>z. f z = f x) ys"
      using ne by (induction ys) auto
    ultimately show ?thesis using ne by auto
  qed
qed

lemma find_sorted_min:
  "sorted (map g xs) \<Longrightarrow> find P xs = Some x \<Longrightarrow> y \<in> set xs \<Longrightarrow> P y \<Longrightarrow> g x \<le> g y"
  by (induction xs) (auto split: if_splits)

lemma drop_duplicates_min:
  assumes "sorted (map g xs)" "x \<in> set (drop_duplicates f xs)" "y \<in> set xs" "f y = f x"
  shows "g x \<le> g y"
  using find_sorted_min [OF assms(1) drop_duplicates_first [OF assms(2)] assms(3)] assms(4)
  by simp

subsection \<open>The per-fraction resolver\<close>


lemma length_assign_pep_id: "length (assign_pep_id df) = length df"
  by (simp add: assign_pep_id_def)

lemma nth_assign_pep_id:
  "i < length df \<Longrightarrow> assign_pep_id df ! i = with_pep_id (df ! i) (Idx i)"
  by (simp add: assign_pep_id_def)

lemma map_assign_pep_id:
  assumes "\<And>r p. g (with_pep_id r p) = h r"
  shows "map g (assign_pep_id df) = map h df"
  by (rule nth_equalityI) (simp_all add: length_assign_pep_id nth_assign_pep_id assms)

lemma pep_id_assign: "map pep_id (assign_pep_id df) = map Idx [0..<length df]"
  by (rule nth_equalityI) (simp_all add: length_assign_pep_id nth_assign_pep_id with_pep_id_def)

lemma set_assign_pep_id:
  assumes "r \<in> set (assign_pep_id df)"
  shows "\<exists>x p. x \<in> set df \<and> r = with_pep_id x p"
proof -
  from assms obtain i where "i < length df" "r = assign_pep_id df ! i"
    by (auto simp: in_set_conv_nth length_assign_pep_id)
  then have "df ! i \<in> set df" "r = with_pep_id (df ! i) (Idx i)"
    by (simp_all add: nth_assign_pep_id)
  then show ?thesis by blast
qed

lemma with_pep_id_simps [simp]:
  "scan (with_pep_id r p) = scan r" "concat (with_pep_id r p) = concat r"
  "q_value (with_pep_id r p) = q_value r" "file_idx (with_pep_id r p) = file_idx r"
  "protein_id (with_pep_id r p) = protein_id r" "sample (with_pep_id r p) = sample r"
  "pep_id (with_pep_id r p) = p"
  by (simp_all add: with_pep_id_def)

text \<open>The frame that \<open>get_current_fraction_psms\<close> stores, before \<open>pep_id\<close> is added.\<close>

lemma get_current_fraction_psms_Inr:
  assumes "get_current_fraction_psms E s idx = Inr s'"
  shows "s' = s\<lparr>curr_frac_id_df := assign_pep_id
            (sort_values E (\<lambda>r. of_int (scan r))
              (drop_duplicates concat
                (sort_values E q_value (filter (\<lambda>r. file_idx r = idx) (curr_sample_id_df s)))))\<rparr>"
    and "has_q s" and "idx \<in> set (map file_idx (curr_sample_id_df s))"
  using assms by (auto simp: get_current_fraction_psms_def Let_def split: if_splits)

lemma sorted_of_int_rat: "sorted (map (\<lambda>r. (of_int (g r) :: rat)) xs) \<Longrightarrow> sorted (map g xs)"
  by (induction xs) auto

text \<open>
  C5 (amended). For every fraction that \<open>get_current_fraction_psms\<close> accepts, the stored
  rows are ascending by scan, and strictly ascending when no two of them share a scan;
  each row's \<open>pep_id\<close> is its 0-based position.
\<close>

theorem C5_ascending_pep_id:
  assumes "is_argsort (argsort E)" and "get_current_fraction_psms E s idx = Inr s'"
  shows "sorted (map scan (curr_frac_id_df s')) \<and>
         map pep_id (curr_frac_id_df s') = map Idx [0..<length (curr_frac_id_df s')] \<and>
         (distinct (map scan (curr_frac_id_df s')) \<longrightarrow>
            sorted_wrt (<) (map scan (curr_frac_id_df s')))"
proof -
  let ?d1 = "drop_duplicates concat
                (sort_values E q_value (filter (\<lambda>r. file_idx r = idx) (curr_sample_id_df s)))"
  let ?d2 = "sort_values E (\<lambda>r. of_int (scan r)) ?d1"
  have out: "curr_frac_id_df s' = assign_pep_id ?d2"
    using get_current_fraction_psms_Inr(1) [OF assms(2)] by simp
  have "map scan (assign_pep_id ?d2) = map scan ?d2"
    by (rule map_assign_pep_id) simp
  moreover have "sorted (map scan ?d2)"
    using sorted_sort_values [OF assms(1), of "\<lambda>r. of_int (scan r)" ?d1]
    by (rule sorted_of_int_rat)
  ultimately have s: "sorted (map scan (curr_frac_id_df s'))" using out by simp
  have p: "map pep_id (curr_frac_id_df s') = map Idx [0..<length (curr_frac_id_df s')]"
    using out by (simp add: pep_id_assign length_assign_pep_id)
  from s p show ?thesis by (simp add: strict_sorted_iff)
qed


lemma ex_env_argsort: "is_argsort (argsort ex_env)"
  by (simp add: ex_env_def is_argsort_stable)

lemma ex_same_scan_frac:
  "map_sum id (\<lambda>s'. map (\<lambda>r. (concat r, scan r, pep_id r)) (curr_frac_id_df s'))
     (get_current_fraction_psms ex_env ex_same_scan 0) =
   Inr [(''AAK_2'', 10, Idx 0), (''AAK_3'', 10, Idx 1)]"
  by code_simp

lemma ex_dups_frac:
  "map_sum id (\<lambda>s'. map (\<lambda>r. (concat r, scan r, q_value r, pep_id r)) (curr_frac_id_df s'))
     (get_current_fraction_psms ex_env ex_dups 0) =
   Inr [(''AAK_2'', 12, 1/1000, Idx 0), (''CCK_3'', 20, 2/1000, Idx 1)]"
  by code_simp

text \<open>
  C5 as stated fails: two rows with different keys and the same scan are both kept, so
  the scans of the stored rows are 10, 10, which is not strictly ascending.
\<close>

theorem C5_strict_counterexample:
  "\<exists>s'. get_current_fraction_psms ex_env ex_same_scan 0 = Inr s' \<and>
     map concat (curr_frac_id_df s') = [''AAK_2'', ''AAK_3''] \<and>
     map scan (curr_frac_id_df s') = [10, 10] \<and>
     \<not> sorted_wrt (<) (map scan (curr_frac_id_df s'))"
proof -
  obtain s' where s': "get_current_fraction_psms ex_env ex_same_scan 0 = Inr s'"
    using ex_same_scan_frac by (cases "get_current_fraction_psms ex_env ex_same_scan 0") auto
  with ex_same_scan_frac
  have "map (\<lambda>r. (concat r, scan r, pep_id r)) (curr_frac_id_df s') =
        [(''AAK_2'', 10, Idx 0), (''AAK_3'', 10, Idx 1)]" by simp
  then have "map concat (curr_frac_id_df s') = [''AAK_2'', ''AAK_3'']"
    and "map scan (curr_frac_id_df s') = [10, 10]" by auto
  with s' show ?thesis by simp
qed

theorem C5_ascending_pep_id_witness:
  "\<exists>s'. get_current_fraction_psms ex_env ex_dups 0 = Inr s' \<and>
     map scan (curr_frac_id_df s') = [12, 20] \<and>
     sorted (map scan (curr_frac_id_df s')) \<and>
     map pep_id (curr_frac_id_df s') = map Idx [0..<length (curr_frac_id_df s')] \<and>
     sorted_wrt (<) (map scan (curr_frac_id_df s'))"
proof -
  obtain s' where s': "get_current_fraction_psms ex_env ex_dups 0 = Inr s'"
    using ex_dups_frac by (cases "get_current_fraction_psms ex_env ex_dups 0") auto
  with ex_dups_frac
  have "map (\<lambda>r. (concat r, scan r, q_value r, pep_id r)) (curr_frac_id_df s') =
        [(''AAK_2'', 12, 1/1000, Idx 0), (''CCK_3'', 20, 2/1000, Idx 1)]" by simp
  then have sc: "map scan (curr_frac_id_df s') = [12, 20]" by auto
  from C5_ascending_pep_id [OF ex_env_argsort s'] sc s' show ?thesis by auto
qed

text \<open>The rows that \<open>get_current_fraction_psms\<close> stores, row by row.\<close>

lemma curr_frac_rows:
  assumes "is_argsort (argsort E)" and "get_current_fraction_psms E s idx = Inr s'"
    and "r \<in> set (curr_frac_id_df s')"
  shows "\<exists>x. x \<in> set (filter (\<lambda>r. file_idx r = idx) (curr_sample_id_df s)) \<and>
           r = with_pep_id x (pep_id r) \<and>
           find (\<lambda>y. concat y = concat r)
             (sort_values E q_value (filter (\<lambda>r. file_idx r = idx) (curr_sample_id_df s))) = Some x"
proof -
  define frac where "frac = filter (\<lambda>r. file_idx r = idx) (curr_sample_id_df s)"
  define d0 where "d0 = sort_values E q_value frac"
  define d1 where "d1 = drop_duplicates concat d0"
  define d2 where "d2 = sort_values E (\<lambda>r. of_int (scan r)) d1"
  have out: "curr_frac_id_df s' = assign_pep_id d2"
    using get_current_fraction_psms_Inr(1) [OF assms(2)] by (simp add: d2_def d1_def d0_def frac_def)
  with assms(3) have "r \<in> set (assign_pep_id d2)" by simp
  from set_assign_pep_id [OF this] obtain x p where x: "x \<in> set d2" "r = with_pep_id x p"
    by blast
  have rx: "r = with_pep_id x (pep_id r)" unfolding x(2) by simp
  have "set d2 = set d1" unfolding d2_def by (rule set_sort_values [OF assms(1)])
  with x(1) have d1: "x \<in> set (drop_duplicates concat d0)" by (simp add: d1_def)
  then have "x \<in> set d0" using set_drop_duplicates [of concat d0] by (rule rev_subsetD)
  moreover have "set d0 = set frac" unfolding d0_def by (rule set_sort_values [OF assms(1)])
  ultimately have fr: "x \<in> set frac" by simp
  have "concat r = concat x" unfolding x(2) by simp
  with drop_duplicates_first [OF d1]
  have "find (\<lambda>y. concat y = concat r) d0 = Some x" by simp
  then have "x \<in> set frac \<and> r = with_pep_id x (pep_id r) \<and>
      find (\<lambda>y. concat y = concat r) (sort_values E q_value frac) = Some x"
    using fr rx unfolding d0_def by (intro conjI)
  then show ?thesis unfolding frac_def by (rule exI)
qed

lemma curr_frac_keys:
  assumes "is_argsort (argsort E)" and "get_current_fraction_psms E s idx = Inr s'"
  shows "distinct (map concat (curr_frac_id_df s'))"
    and "set (map concat (curr_frac_id_df s')) =
         set (map concat (filter (\<lambda>r. file_idx r = idx) (curr_sample_id_df s)))"
proof -
  define frac where "frac = filter (\<lambda>r. file_idx r = idx) (curr_sample_id_df s)"
  define d0 where "d0 = sort_values E q_value frac"
  define d1 where "d1 = drop_duplicates concat d0"
  define d2 where "d2 = sort_values E (\<lambda>r. of_int (scan r)) d1"
  have out: "curr_frac_id_df s' = assign_pep_id d2"
    using get_current_fraction_psms_Inr(1) [OF assms(2)] by (simp add: d2_def d1_def d0_def frac_def)
  have k: "map concat (curr_frac_id_df s') = map concat d2"
    unfolding out by (rule map_assign_pep_id) simp
  have "mset d2 = mset d1" unfolding d2_def by (rule mset_sort_values [OF assms(1)])
  then have "image_mset concat (mset d2) = image_mset concat (mset d1)" by simp
  then have m: "mset (map concat d2) = mset (map concat d1)" by simp
  have "distinct (map concat d1)" unfolding d1_def by (rule distinct_drop_duplicates)
  with mset_eq_imp_distinct_iff [OF m] have "distinct (map concat d2)" by simp
  with k show "distinct (map concat (curr_frac_id_df s'))" by simp
  have "set (map concat d2) = set (map concat d1)" using m by (rule mset_eq_setD)
  also have "\<dots> = concat ` set d0" using keys_drop_duplicates [of concat d0] by (simp add: d1_def)
  also have "set d0 = set frac" unfolding d0_def by (rule set_sort_values [OF assms(1)])
  finally show "set (map concat (curr_frac_id_df s')) =
         set (map concat (filter (\<lambda>r. file_idx r = idx) (curr_sample_id_df s)))"
    using k by (simp add: frac_def)
qed

text \<open>
  C4 (amended). For every fraction that \<open>get_current_fraction_psms\<close> accepts, the stored
  rows hold every key of the fraction exactly once; the row kept for a key is a row of
  the fraction with the lowest q-value among the rows of that key, namely the first row
  of that key in the order in which the q-value sort leaves the fraction.
\<close>

theorem C4_dedup_lowest_q:
  assumes "is_argsort (argsort E)" and "get_current_fraction_psms E s idx = Inr s'"
  shows "distinct (map concat (curr_frac_id_df s')) \<and>
         set (map concat (curr_frac_id_df s')) =
           set (map concat (filter (\<lambda>r. file_idx r = idx) (curr_sample_id_df s))) \<and>
         (\<forall>r \<in> set (curr_frac_id_df s').
            \<exists>x \<in> set (filter (\<lambda>r. file_idx r = idx) (curr_sample_id_df s)).
              r = with_pep_id x (pep_id r) \<and>
              (\<forall>y \<in> set (filter (\<lambda>r. file_idx r = idx) (curr_sample_id_df s)).
                 concat y = concat r \<longrightarrow> q_value r \<le> q_value y) \<and>
              find (\<lambda>y. concat y = concat r)
                (sort_values E q_value (filter (\<lambda>r. file_idx r = idx) (curr_sample_id_df s)))
                = Some x)"
proof -
  define frac where "frac = filter (\<lambda>r. file_idx r = idx) (curr_sample_id_df s)"
  define d0 where "d0 = sort_values E q_value frac"
  have d0: "set d0 = set frac" "sorted (map q_value d0)"
    unfolding d0_def
    by (rule set_sort_values [OF assms(1)], rule sorted_sort_values [OF assms(1)])
  have rows: "\<exists>x \<in> set frac. r = with_pep_id x (pep_id r) \<and>
              (\<forall>y \<in> set frac. concat y = concat r \<longrightarrow> q_value r \<le> q_value y) \<and>
              find (\<lambda>y. concat y = concat r) d0 = Some x"
    if r: "r \<in> set (curr_frac_id_df s')" for r
  proof -
    from curr_frac_rows [OF assms r] obtain x where
      x: "x \<in> set frac" "r = with_pep_id x (pep_id r)"
         "find (\<lambda>y. concat y = concat r) d0 = Some x"
      unfolding frac_def d0_def by blast
    have qr: "q_value r = q_value x" by (subst x(2)) simp
    have "q_value r \<le> q_value y" if y: "y \<in> set frac" "concat y = concat r" for y
    proof -
      from y(1) d0(1) have "y \<in> set d0" by simp
      from find_sorted_min [OF d0(2) x(3) this y(2)] qr show ?thesis by simp
    qed
    then have "\<forall>y \<in> set frac. concat y = concat r \<longrightarrow> q_value r \<le> q_value y" by blast
    with x show ?thesis by (intro bexI [of _ x] conjI)
  qed
  then have "\<forall>r \<in> set (curr_frac_id_df s'). \<exists>x \<in> set frac. r = with_pep_id x (pep_id r) \<and>
              (\<forall>y \<in> set frac. concat y = concat r \<longrightarrow> q_value r \<le> q_value y) \<and>
              find (\<lambda>y. concat y = concat r) d0 = Some x" by (rule ballI)
  with curr_frac_keys [OF assms] show ?thesis
    unfolding frac_def d0_def by (intro conjI)
qed

theorem C4_dedup_lowest_q_witness:
  "\<exists>s'. get_current_fraction_psms ex_env ex_dups 0 = Inr s' \<and>
     map (\<lambda>r. (concat r, q_value r)) (curr_frac_id_df s') =
       [(''AAK_2'', 1/1000), (''CCK_3'', 2/1000)] \<and>
     distinct (map concat (curr_frac_id_df s')) \<and>
     set (map concat (curr_frac_id_df s')) =
       set (map concat (filter (\<lambda>r. file_idx r = 0) (curr_sample_id_df ex_dups)))"
proof -
  obtain s' where s': "get_current_fraction_psms ex_env ex_dups 0 = Inr s'"
    using ex_dups_frac by (cases "get_current_fraction_psms ex_env ex_dups 0") auto
  with ex_dups_frac
  have "map (\<lambda>r. (concat r, scan r, q_value r, pep_id r)) (curr_frac_id_df s') =
        [(''AAK_2'', 12, 1/1000, Idx 0), (''CCK_3'', 20, 2/1000, Idx 1)]" by simp
  then have q: "map (\<lambda>r. (concat r, q_value r)) (curr_frac_id_df s') =
       [(''AAK_2'', 1/1000), (''CCK_3'', 2/1000)]" by auto
  from C4_dedup_lowest_q [OF ex_env_argsort s']
  have d: "distinct (map concat (curr_frac_id_df s'))"
    and k: "set (map concat (curr_frac_id_df s')) =
       set (map concat (filter (\<lambda>r. file_idx r = 0) (curr_sample_id_df ex_dups)))"
    by (rule conjunct1, rule conjunct2 [THEN conjunct1])
  from s' q d k show ?thesis by (intro exI [of _ s'] conjI)
qed

subsection \<open>The filtered fraction\<close>


lemma filter_current_fraction_psms_cases:
  assumes "filter_current_fraction_psms E s q u soft mar = Inr s2"
  shows "\<exists>r0 rs master rows.
           curr_frac_id_df s = r0 # rs \<and> match_across_runs_master s = Some master \<and>
           curr_frac_filtered_id_df s2 =
             filt1_of E s (filter (\<lambda>m. mc_file_idx m = of_int (file_idx r0)) master) q u soft @ rows \<and>
           (if mar
            then match_across_runs_rows E s (file_idx r0)
                   (filter (\<lambda>m. mc_file_idx m = of_int (file_idx r0)) master)
                   (filt1_of E s (filter (\<lambda>m. mc_file_idx m = of_int (file_idx r0)) master) q u soft)
                   q u = Inr rows
            else rows = [])"
  using assms
  by (auto simp: filter_current_fraction_psms_def filt1_of_def Let_def
      split: list.splits if_splits option.splits sum.splits)

lemma with_evidence_simps [simp]:
  "scan (with_evidence r e) = scan r" "concat (with_evidence r e) = concat r"
  "q_value (with_evidence r e) = q_value r" "file_idx (with_evidence r e) = file_idx r"
  "protein_id (with_evidence r e) = protein_id r" "sample (with_evidence r e) = sample r"
  "pep_id (with_evidence r e) = pep_id r" "evidence (with_evidence r e) = e"
  by (simp_all add: with_evidence_def)

lemma mar_out_df_evidence:
  assumes "mar_out_df mc fi cs pred = Inr rows" and "r \<in> set rows"
  shows "evidence r = MatchAcrossRuns"
  using assms
  by (auto simp: mar_out_df_def Let_def split: sum.splits if_splits)

lemma match_across_runs_rows_evidence:
  assumes "match_across_runs_rows E s idx mc filt q u = Inr rows" and "r \<in> set rows"
  shows "evidence r = MatchAcrossRuns"
proof -
  from assms(1) obtain fi cs pred where "mar_out_df mc fi cs pred = Inr rows"
    by (auto simp: match_across_runs_rows_def Let_def split: if_splits list.splits sum.splits)
  from mar_out_df_evidence [OF this assms(2)] show ?thesis .
qed

lemma soft_rescue_rows:
  assumes "r \<in> set (soft_rescue E df mc q)"
  shows "evidence r = Soft" and "q \<le> q_value r" and "q_value r < soft_threshold_q E"
    and "\<exists>m \<in> set mc. mc_concat m = concat r"
  using assms by (auto simp: soft_rescue_def Let_def)

lemma filt0_rows:
  assumes "r \<in> set (map (\<lambda>r. with_evidence r QValue) (filter_df_by_args h df q u))"
  shows "evidence r = QValue"
    and "\<exists>x \<in> set df. concat r = concat x \<and> protein_id r = protein_id x \<and>
           (if u then str_count (protein_id x) (CHR '','') = 0 else True)"
  using assms by (auto simp: filter_df_by_args_def Let_def split: if_splits)

lemma curr_frac_file_idx:
  assumes "is_argsort (argsort E)" and "get_current_fraction_psms E s idx = Inr s'"
    and "r \<in> set (curr_frac_id_df s')"
  shows "file_idx r = idx"
proof -
  from curr_frac_rows [OF assms] obtain x where
    x: "x \<in> set (filter (\<lambda>r. file_idx r = idx) (curr_sample_id_df s))"
       "r = with_pep_id x (pep_id r)" by blast
  have "file_idx r = file_idx x" by (subst x(2)) simp
  with x(1) show ?thesis by simp
qed

lemma get_current_fraction_psms_master:
  "get_current_fraction_psms E s idx = Inr s' \<Longrightarrow>
     match_across_runs_master s' = match_across_runs_master s"
  by (auto simp: get_current_fraction_psms_def Let_def split: if_splits)

text \<open>
  C3. After \<open>get_current_fraction_psms\<close> for fraction \<open>idx\<close>, every row that
  \<open>filter_current_fraction_psms\<close> labels \<open>soft\<close> has a q-value in the half-open band
  from the threshold to the soft threshold, and its key is the key of a row of
  \<open>match_across_runs_master\<close> (the candidates that passed the quorum) whose \<open>file_idx\<close>
  is \<open>idx\<close>.
\<close>

theorem C3_soft_band:
  assumes "is_argsort (argsort E)"
    and "get_current_fraction_psms E s idx = Inr s1"
    and "filter_current_fraction_psms E s1 q u soft mar = Inr s2"
    and "r \<in> set (curr_frac_filtered_id_df s2)" and "evidence r = Soft"
  shows "q \<le> q_value r \<and> q_value r < soft_threshold_q E \<and>
         (\<exists>master m. match_across_runs_master s = Some master \<and> m \<in> set master \<and>
            mc_concat m = concat r \<and> mc_file_idx m = of_int idx)"
proof -
  from filter_current_fraction_psms_cases [OF assms(3)] obtain r0 rs master rows where
    c: "curr_frac_id_df s1 = r0 # rs" "match_across_runs_master s1 = Some master"
       "curr_frac_filtered_id_df s2 =
          filt1_of E s1 (filter (\<lambda>m. mc_file_idx m = of_int (file_idx r0)) master) q u soft @ rows"
       "if mar
        then match_across_runs_rows E s1 (file_idx r0)
               (filter (\<lambda>m. mc_file_idx m = of_int (file_idx r0)) master)
               (filt1_of E s1 (filter (\<lambda>m. mc_file_idx m = of_int (file_idx r0)) master) q u soft)
               q u = Inr rows
        else rows = []"
    by blast
  define mc where "mc = filter (\<lambda>m. mc_file_idx m = of_int (file_idx r0)) master"
  have "r0 \<in> set (curr_frac_id_df s1)" by (simp add: c(1))
  from curr_frac_file_idx [OF assms(1,2) this] have idx: "file_idx r0 = idx" .
  have not_mar: "r \<notin> set rows"
  proof
    assume "r \<in> set rows"
    with c(4) have "evidence r = MatchAcrossRuns"
      by (cases mar) (auto dest: match_across_runs_rows_evidence)
    with assms(5) show False by simp
  qed
  have not_q: "r \<notin> set (map (\<lambda>r. with_evidence r QValue)
                   (filter_df_by_args (has_q s1) (curr_frac_id_df s1) q u))"
    using filt0_rows(1) assms(5) by fastforce
  from assms(4) not_mar not_q have "r \<in> set (soft_rescue E (curr_frac_id_df s1) mc q)"
    unfolding c(3) filt1_of_def mc_def Let_def by (auto split: if_splits)
  from soft_rescue_rows(2-4) [OF this] obtain m where
    "q \<le> q_value r" "q_value r < soft_threshold_q E" "m \<in> set mc" "mc_concat m = concat r"
    by blast
  moreover have "match_across_runs_master s = Some master"
    using get_current_fraction_psms_master [OF assms(2)] c(2) by simp
  ultimately show ?thesis using idx unfolding mc_def by auto
qed

lemma map_sum_InrE:
  assumes "map_sum id f x = Inr v"
  obtains y where "x = Inr y" and "f y = v"
  using assms by (cases x) auto

lemma pipeline_stagesE:
  assumes "pipeline E s q u mf cs idx soft mar = Inr rows"
  obtains s0 sa s1 s2 where "make_master_match_list s q u mf = Inr s0"
    and "get_current_sample_psms s0 cs = Inr sa"
    and "get_current_fraction_psms E sa idx = Inr s1"
    and "filter_current_fraction_psms E s1 q u soft mar = Inr s2"
    and "curr_frac_filtered_id_df s2 = rows"
  using assms by (auto simp: pipeline_def prepare_def split: sum.splits)

lemma ex_soft_rows:
  "map_sum id (map (\<lambda>r. (concat r, q_value r, evidence r)))
     (pipeline ex_env ex_soft (1/100) True (1/4) ''B'' 0 True True) =
   Inr [(''AAK_2'', 1/50, Soft), (''PEPTIDE_2'', 0, MatchAcrossRuns)]"
  by code_simp

theorem C3_soft_band_witness:
  "\<exists>s s1 s2 r. get_current_fraction_psms ex_env s 0 = Inr s1 \<and>
     filter_current_fraction_psms ex_env s1 (1/100) True True True = Inr s2 \<and>
     r \<in> set (curr_frac_filtered_id_df s2) \<and> evidence r = Soft \<and> concat r = ''AAK_2'' \<and>
     1/100 \<le> q_value r \<and> q_value r < soft_threshold_q ex_env \<and>
     (\<exists>master m. match_across_runs_master s = Some master \<and> m \<in> set master \<and>
        mc_concat m = concat r \<and> mc_file_idx m = of_int 0)"
proof -
  obtain rows where
    rows: "pipeline ex_env ex_soft (1/100) True (1/4) ''B'' 0 True True = Inr rows"
      "map (\<lambda>r. (concat r, q_value r, evidence r)) rows =
         [(''AAK_2'', 1/50, Soft), (''PEPTIDE_2'', 0, MatchAcrossRuns)]"
    by (rule map_sum_InrE [OF ex_soft_rows])
  from rows(2) obtain r r' where "rows = [r, r']" by (auto simp: map_eq_Cons_conv)
  with rows(2) have r: "r \<in> set rows" "evidence r = Soft" "concat r = ''AAK_2''" by simp_all
  obtain s s1 s2 where
    st: "get_current_fraction_psms ex_env s 0 = Inr s1"
        "filter_current_fraction_psms ex_env s1 (1/100) True True True = Inr s2"
        "curr_frac_filtered_id_df s2 = rows"
    by (rule pipeline_stagesE [OF rows(1)])
  from r(1) st(3) have mem: "r \<in> set (curr_frac_filtered_id_df s2)" by simp
  note c = C3_soft_band [OF ex_env_argsort st(1) st(2) mem r(2)]
  from st(1) st(2) mem r(2) r(3) c [THEN conjunct1] c [THEN conjunct2, THEN conjunct1]
    c [THEN conjunct2, THEN conjunct2]
  show ?thesis by (intro exI [of _ s] exI [of _ s1] exI [of _ s2] exI [of _ r] conjI)
qed

lemma curr_frac_min:
  assumes "is_argsort (argsort E)" and "get_current_fraction_psms E s idx = Inr s'"
    and "r \<in> set (curr_frac_id_df s')"
    and "y \<in> set (curr_sample_id_df s)" and "file_idx y = idx" and "concat y = concat r"
  shows "q_value r \<le> q_value y"
proof -
  define frac where "frac = filter (\<lambda>r. file_idx r = idx) (curr_sample_id_df s)"
  define d0 where "d0 = sort_values E q_value frac"
  have d0: "set d0 = set frac" "sorted (map q_value d0)"
    unfolding d0_def
    by (rule set_sort_values [OF assms(1)], rule sorted_sort_values [OF assms(1)])
  from curr_frac_rows [OF assms(1-3)] obtain x where
    x: "r = with_pep_id x (pep_id r)" "find (\<lambda>y. concat y = concat r) d0 = Some x"
    unfolding frac_def d0_def by blast
  have qr: "q_value r = q_value x" by (subst x(1)) simp
  from assms(4,5) d0(1) have "y \<in> set d0" by (simp add: frac_def)
  from find_sorted_min [OF d0(2) x(2) this assms(6)] qr show ?thesis by simp
qed

text \<open>
  C9. With \<open>unique_only\<close>, when the row of a key with the strictly lowest q-value in the
  fraction maps to more than one protein, no row of that key is labelled \<open>q_value\<close> in
  the filtered fraction, whatever the other rows of the key map to: the duplicates are
  dropped before the uniqueness filter runs.
\<close>

theorem C9_shared_best_row_hides_key:
  assumes "is_argsort (argsort E)"
    and "get_current_fraction_psms E s idx = Inr s1"
    and "filter_current_fraction_psms E s1 q True soft mar = Inr s2"
    and "x \<in> set (curr_sample_id_df s)" and "file_idx x = idx"
    and "1 < length (accessions (protein_id x))"
    and "\<forall>y \<in> set (curr_sample_id_df s).
           file_idx y = idx \<and> concat y = concat x \<and> y \<noteq> x \<longrightarrow> q_value x < q_value y"
  shows "\<not> (\<exists>r \<in> set (curr_frac_filtered_id_df s2). concat r = concat x \<and> evidence r = QValue)"
proof
  assume "\<exists>r \<in> set (curr_frac_filtered_id_df s2). concat r = concat x \<and> evidence r = QValue"
  then obtain r where r: "r \<in> set (curr_frac_filtered_id_df s2)" "concat r = concat x"
    "evidence r = QValue" by blast
  from filter_current_fraction_psms_cases [OF assms(3)] obtain r0 rs master rows where
    c0: "curr_frac_id_df s1 = r0 # rs" "match_across_runs_master s1 = Some master" and
    c: "curr_frac_filtered_id_df s2 =
          filt1_of E s1 (filter (\<lambda>m. mc_file_idx m = of_int (file_idx r0)) master) q True soft @ rows"
       "if mar
        then match_across_runs_rows E s1 (file_idx r0)
               (filter (\<lambda>m. mc_file_idx m = of_int (file_idx r0)) master)
               (filt1_of E s1 (filter (\<lambda>m. mc_file_idx m = of_int (file_idx r0)) master) q True soft)
               q True = Inr rows
        else rows = []"
    by blast
  define mc where "mc = filter (\<lambda>m. mc_file_idx m = of_int (file_idx r0)) master"
  have not_mar: "r \<notin> set rows"
  proof
    assume "r \<in> set rows"
    with c(2) have "evidence r = MatchAcrossRuns"
      by (cases mar) (auto dest: match_across_runs_rows_evidence)
    with r(3) show False by simp
  qed
  have not_soft: "r \<notin> set (soft_rescue E (curr_frac_id_df s1) mc q)"
    using soft_rescue_rows(1) r(3) by fastforce
  from r(1) not_mar not_soft
  have "r \<in> set (map (\<lambda>r. with_evidence r QValue)
                   (filter_df_by_args (has_q s1) (curr_frac_id_df s1) q True))"
    unfolding c(1) filt1_of_def mc_def Let_def by (auto split: if_splits)
  from filt0_rows(2) [OF this] obtain z where
    z: "z \<in> set (curr_frac_id_df s1)" "concat r = concat z"
       "str_count (protein_id z) (CHR '','') = 0" by auto
  from curr_frac_rows [OF assms(1,2) z(1)] obtain x' where
    x': "x' \<in> set (filter (\<lambda>r. file_idx r = idx) (curr_sample_id_df s))"
        "z = with_pep_id x' (pep_id z)" by blast
  have zx: "concat z = concat x'" "q_value z = q_value x'" "protein_id z = protein_id x'"
    by (subst x'(2), simp)+
  have "concat x = concat z" using r(2) z(2) by simp
  from curr_frac_min [OF assms(1,2) z(1) assms(4,5) this] zx(2)
  have le: "q_value x' \<le> q_value x" by simp
  have "x' = x"
  proof (rule ccontr)
    assume "x' \<noteq> x"
    with assms(7) x'(1) zx(1) r(2) z(2) have "q_value x < q_value x'" by simp
    with le show False by simp
  qed
  with z(3) zx(3) have "str_count (protein_id x) (CHR '','') = 0" by simp
  with assms(6) show False by (simp add: accessions_def length_py_split)
qed

text \<open>
  C10 (amended). When the frame that \<open>filter_current_fraction_psms\<close> builds before the
  match-across-runs block (the rows under the threshold and, with the soft threshold in
  use, the rescued rows) is empty, the call with match-across-runs enabled raises
  \<^verbatim>\<open>KeyError\<close> and synthesizes no row.
\<close>

theorem C10_empty_filtered_raises:
  assumes "filter_current_fraction_psms E s q u soft False = Inr s1"
    and "curr_frac_filtered_id_df s1 = []"
  shows "filter_current_fraction_psms E s q u soft True = Inl KeyError"
  using assms
  by (auto simp: filter_current_fraction_psms_def match_across_runs_rows_def Let_def
      split: list.splits if_splits option.splits sum.splits)

lemma ex_shared_rows:
  "map_sum id (\<lambda>s1. map_sum id (\<lambda>s2. map (\<lambda>r. (concat r, evidence r)) (curr_frac_filtered_id_df s2))
       (filter_current_fraction_psms ex_env s1 (1/100) True True False))
     (get_current_fraction_psms ex_env ex_shared 0) =
   Inr (Inr [(''CCK_3'', QValue)])"
  by code_simp

lemma ex_shared_hyps:
  "mk_psm ''AAK'' 2 10 0 ''A'' (1/1000) ''P1,P2'' \<in> set (curr_sample_id_df ex_shared)"
  "mk_psm ''AAK'' 2 15 0 ''A'' (2/1000) ''P1'' \<in> set (curr_sample_id_df ex_shared)"
  "file_idx (mk_psm ''AAK'' 2 10 0 ''A'' (1/1000) ''P1,P2'') = 0"
  "concat (mk_psm ''AAK'' 2 15 0 ''A'' (2/1000) ''P1'') =
     concat (mk_psm ''AAK'' 2 10 0 ''A'' (1/1000) ''P1,P2'')"
  "length (accessions (protein_id (mk_psm ''AAK'' 2 15 0 ''A'' (2/1000) ''P1''))) = 1"
  "1 < length (accessions (protein_id (mk_psm ''AAK'' 2 10 0 ''A'' (1/1000) ''P1,P2'')))"
  "\<forall>y \<in> set (curr_sample_id_df ex_shared).
     file_idx y = 0 \<and> concat y = concat (mk_psm ''AAK'' 2 10 0 ''A'' (1/1000) ''P1,P2'') \<and>
     y \<noteq> mk_psm ''AAK'' 2 10 0 ''A'' (1/1000) ''P1,P2'' \<longrightarrow>
     q_value (mk_psm ''AAK'' 2 10 0 ''A'' (1/1000) ''P1,P2'') < q_value y"
  by code_simp+

theorem C9_shared_best_row_hides_key_witness:
  "\<exists>s1 s2. get_current_fraction_psms ex_env ex_shared 0 = Inr s1 \<and>
     filter_current_fraction_psms ex_env s1 (1/100) True True False = Inr s2 \<and>
     mk_psm ''AAK'' 2 10 0 ''A'' (1/1000) ''P1,P2'' \<in> set (curr_sample_id_df ex_shared) \<and>
     1 < length (accessions (protein_id (mk_psm ''AAK'' 2 10 0 ''A'' (1/1000) ''P1,P2''))) \<and>
     mk_psm ''AAK'' 2 15 0 ''A'' (2/1000) ''P1'' \<in> set (curr_sample_id_df ex_shared) \<and>
     concat (mk_psm ''AAK'' 2 15 0 ''A'' (2/1000) ''P1'') =
       concat (mk_psm ''AAK'' 2 10 0 ''A'' (1/1000) ''P1,P2'') \<and>
     length (accessions (protein_id (mk_psm ''AAK'' 2 15 0 ''A'' (2/1000) ''P1''))) = 1 \<and>
     \<not> (\<exists>r \<in> set (curr_frac_filtered_id_df s2).
          concat r = concat (mk_psm ''AAK'' 2 10 0 ''A'' (1/1000) ''P1,P2'') \<and>
          evidence r = QValue)"
proof -
  obtain s1 where s1: "get_current_fraction_psms ex_env ex_shared 0 = Inr s1"
    and f: "map_sum id (\<lambda>s2. map (\<lambda>r. (concat r, evidence r)) (curr_frac_filtered_id_df s2))
       (filter_current_fraction_psms ex_env s1 (1/100) True True False) =
       Inr [(''CCK_3'', QValue)]"
    by (rule map_sum_InrE [OF ex_shared_rows])
  obtain s2 where
    s2: "filter_current_fraction_psms ex_env s1 (1/100) True True False = Inr s2"
    by (rule map_sum_InrE [OF f])
  note c = C9_shared_best_row_hides_key [OF ex_env_argsort s1 s2 ex_shared_hyps(1)
      ex_shared_hyps(3) ex_shared_hyps(6) ex_shared_hyps(7)]
  from s1 s2 ex_shared_hyps(1) ex_shared_hyps(6) ex_shared_hyps(2) ex_shared_hyps(4)
    ex_shared_hyps(5) c
  show ?thesis by (intro exI [of _ s1] exI [of _ s2] conjI)
qed

lemma ex_soft_strict_empty:
  "map_sum id (\<lambda>s1. filter_df_by_args (has_q s1) (curr_frac_id_df s1) (1/100) True)
     (prepare ex_env ex_soft (1/100) True (1/4) ''B'' 0) = Inr []"
  by code_simp

text \<open>
  C10 as stated fails: in sample B no row passes the strict filter, but the soft
  threshold rescues one row, so the frame is not empty when the match-across-runs block
  reads its first row, and the call returns with a synthesized row.
\<close>

theorem C10_soft_rescue_counterexample:
  "\<exists>s1 s2. prepare ex_env ex_soft (1/100) True (1/4) ''B'' 0 = Inr s1 \<and>
     filter_df_by_args (has_q s1) (curr_frac_id_df s1) (1/100) True = [] \<and>
     filter_current_fraction_psms ex_env s1 (1/100) True True True = Inr s2 \<and>
     map (\<lambda>r. (concat r, q_value r, evidence r)) (curr_frac_filtered_id_df s2) =
       [(''AAK_2'', 1/50, Soft), (''PEPTIDE_2'', 0, MatchAcrossRuns)]"
proof -
  obtain s1 where s1: "prepare ex_env ex_soft (1/100) True (1/4) ''B'' 0 = Inr s1"
    and e: "filter_df_by_args (has_q s1) (curr_frac_id_df s1) (1/100) True = []"
    by (rule map_sum_InrE [OF ex_soft_strict_empty])
  have "map_sum id (map (\<lambda>r. (concat r, q_value r, evidence r)))
     (case filter_current_fraction_psms ex_env s1 (1/100) True True True of
        Inl e \<Rightarrow> Inl e | Inr s2 \<Rightarrow> Inr (curr_frac_filtered_id_df s2)) =
     Inr [(''AAK_2'', 1/50, Soft), (''PEPTIDE_2'', 0, MatchAcrossRuns)]"
    using ex_soft_rows by (simp add: pipeline_def s1)
  then obtain s2 where "filter_current_fraction_psms ex_env s1 (1/100) True True True = Inr s2"
    and "map (\<lambda>r. (concat r, q_value r, evidence r)) (curr_frac_filtered_id_df s2) =
       [(''AAK_2'', 1/50, Soft), (''PEPTIDE_2'', 0, MatchAcrossRuns)]"
    by (cases "filter_current_fraction_psms ex_env s1 (1/100) True True True") auto
  with s1 e show ?thesis by (intro exI [of _ s1] exI [of _ s2] conjI)
qed

lemma ex_soft_no_soft:
  "map_sum id (\<lambda>s1. map_sum id curr_frac_filtered_id_df
       (filter_current_fraction_psms ex_env s1 (1/100) True False False))
     (prepare ex_env ex_soft (1/100) True (1/4) ''B'' 0) = Inr (Inr [])"
  by code_simp

theorem C10_empty_filtered_raises_witness:
  "\<exists>s1 s'. prepare ex_env ex_soft (1/100) True (1/4) ''B'' 0 = Inr s1 \<and>
     filter_current_fraction_psms ex_env s1 (1/100) True False False = Inr s' \<and>
     curr_frac_filtered_id_df s' = [] \<and>
     filter_current_fraction_psms ex_env s1 (1/100) True False True = Inl KeyError"
proof -
  obtain s1 where s1: "prepare ex_env ex_soft (1/100) True (1/4) ''B'' 0 = Inr s1"
    and f: "map_sum id curr_frac_filtered_id_df
       (filter_current_fraction_psms ex_env s1 (1/100) True False False) = Inr []"
    by (rule map_sum_InrE [OF ex_soft_no_soft])
  obtain s' where
    s': "filter_current_fraction_psms ex_env s1 (1/100) True False False = Inr s'"
      "curr_frac_filtered_id_df s' = []"
    by (rule map_sum_InrE [OF f])
  from s1 s' C10_empty_filtered_raises [OF s'] show ?thesis
    by (intro exI [of _ s1] exI [of _ s'] conjI)
qed

subsection \<open>The match-across-runs block\<close>


lemma mar_loop_error:
  "each \<in> set names \<Longrightarrow> each \<noteq> cur \<Longrightarrow> col each = Inl e \<Longrightarrow>
     \<exists>e'. mar_loop col cur pred names = Inl e'"
proof (induction names arbitrary: pred)
  case Nil
  then show ?case by simp
next
  case (Cons n names)
  show ?case
  proof (cases "n = cur")
    case True
    with Cons show ?thesis by auto
  next
    case False
    show ?thesis
    proof (cases "col n")
      case (Inl e0)
      with False show ?thesis by simp
    next
      case (Inr c)
      with Cons.prems have "each \<in> set names" by auto
      from Cons.IH [OF this Cons.prems(2,3)] False Inr show ?thesis by simp
    qed
  qed
qed

lemma argsort_Nil:
  assumes "is_argsort a" shows "a [] = []"
proof -
  from assms have "mset (a []) = mset [0..<length ([] :: rat list)]"
    unfolding is_argsort_def by blast
  then show ?thesis by simp
qed

lemma compare_df_disjoint:
  assumes "is_argsort (argsort E)"
    and "set (map concat other) \<inter> set (map concat filt) = {}"
  shows "compare_df E other filt = []"
proof -
  have "filter (\<lambda>c. concat c = concat ot) filt = []" if "ot \<in> set other" for ot
    using that assms(2) by (auto simp: filter_empty_conv)
  then have "List.maps (\<lambda>ot. map (\<lambda>c. (scan ot, scan c))
                 (filter (\<lambda>c. concat c = concat ot) filt)) other = []"
    by simp
  then show ?thesis
    by (simp add: compare_df_def sort_values_def argsort_Nil [OF assms(1)] del: List.maps_eq)
qed

lemma peer_column_empty_training:
  assumes "is_argsort (argsort E)" and "fit E [] = Inl e"
    and "set (map concat other) \<inter> set (map concat filt) = {}"
  shows "peer_column E other filt cands = Inl e"
  by (simp add: peer_column_def compare_df_disjoint [OF assms(1,3)] assms(2))

lemma match_across_runs_rows_error:
  assumes "each \<in> set (map sample (master_id_df s))"
    and "each \<noteq> sample f0"
    and "(if has_q s
          then peer_column E (other_sample_df E s idx q u each) (f0 # fs)
                 (filter (\<lambda>p. p \<notin> set (map concat (f0 # fs))) (map mc_concat mc))
          else Inl KeyError) = Inl e"
  shows "\<exists>e'. match_across_runs_rows E s idx mc (f0 # fs) q u = Inl e'"
proof -
  define col where "col = (\<lambda>each_sample.
          if has_q s
          then peer_column E (other_sample_df E s idx q u each_sample) (f0 # fs)
                 (filter (\<lambda>p. p \<notin> set (map concat (f0 # fs))) (map mc_concat mc))
          else Inl KeyError)"
  define pred0 where "pred0 = map (\<lambda>k. (k, [] :: rat option list))
       (filter (\<lambda>p. p \<notin> set (map concat (f0 # fs))) (map mc_concat mc))"
  from assms(1) have ne: "master_id_df s \<noteq> []" by auto
  from assms(1) have mem: "each \<in> set (remdups (map sample (master_id_df s)))" by simp
  have "col each = Inl e" using assms(3) by (simp add: col_def)
  from mar_loop_error [where col = col, OF mem assms(2) this]
  obtain e' where e': "mar_loop col (sample f0) pred0 (remdups (map sample (master_id_df s))) = Inl e'"
    by blast
  have "match_across_runs_rows E s idx mc (f0 # fs) q u =
      (case mar_loop col (sample f0) pred0 (remdups (map sample (master_id_df s))) of
         Inl e \<Rightarrow> Inl e
       | Inr pred \<Rightarrow> mar_out_df mc (file_idx f0) (sample f0) pred)"
    unfolding match_across_runs_rows_def Let_def col_def pred0_def using ne by simp
  with e' show ?thesis by simp
qed

lemma filter_current_fraction_psms_eq:
  "filter_current_fraction_psms E s q u soft mar =
     (case before_mar E s q u soft of
        Inl e \<Rightarrow> Inl e
      | Inr (idx, mc, filt1) \<Rightarrow>
          if mar
          then (case match_across_runs_rows E s idx mc filt1 q u of
                  Inl e \<Rightarrow> Inl e
                | Inr rows \<Rightarrow> Inr (s\<lparr>curr_frac_filtered_id_df := filt1 @ rows\<rparr>))
          else Inr (s\<lparr>curr_frac_filtered_id_df := filt1\<rparr>))"
  by (auto simp: filter_current_fraction_psms_def before_mar_def filt1_of_def Let_def
      split: list.split option.split)

lemma before_mar_idx:
  "before_mar E s q u soft = Inr (idx, mc, filt1) \<Longrightarrow> curr_frac_id_df s = r0 # rs \<Longrightarrow>
     idx = file_idx r0"
  by (auto simp: before_mar_def split: if_splits option.splits)

text \<open>
  C2 (amended). A peer sample whose confident set shares no key with the filtered set
  of the current fraction is not skipped: the regressor is fitted on the empty training
  set, and when it rejects that set the call with match-across-runs enabled raises.
\<close>

theorem C2_empty_training_raises:
  assumes "is_argsort (argsort E)" and "fit E [] = Inl e"
    and "filter_current_fraction_psms E s q u soft False = Inr s1"
    and "curr_frac_id_df s = r0 # rs" and "curr_frac_filtered_id_df s1 = f0 # fs"
    and "each \<in> set (map sample (master_id_df s))" and "each \<noteq> sample f0"
    and "set (map concat (other_sample_df E s (file_idx r0) q u each)) \<inter>
         set (map concat (curr_frac_filtered_id_df s1)) = {}"
  shows "\<exists>e'. filter_current_fraction_psms E s q u soft True = Inl e'"
proof -
  from assms(3) obtain idx mc filt1 where
    b: "before_mar E s q u soft = Inr (idx, mc, filt1)" and s1: "s1 = s\<lparr>curr_frac_filtered_id_df := filt1\<rparr>"
    by (auto simp: filter_current_fraction_psms_eq split: sum.splits)
  from s1 assms(5) have filt1: "filt1 = f0 # fs" by simp
  from before_mar_idx [OF b assms(4)] have idx: "idx = file_idx r0" .
  from assms(8) s1 filt1 have disj:
    "set (map concat (other_sample_df E s idx q u each)) \<inter> set (map concat (f0 # fs)) = {}"
    by (simp add: idx)
  have "\<exists>e0. (if has_q s
          then peer_column E (other_sample_df E s idx q u each) (f0 # fs)
                 (filter (\<lambda>p. p \<notin> set (map concat (f0 # fs))) (map mc_concat mc))
          else Inl KeyError) = Inl e0"
    using peer_column_empty_training [OF assms(1,2) disj] by (cases "has_q s") simp_all
  then obtain e0 where "(if has_q s
          then peer_column E (other_sample_df E s idx q u each) (f0 # fs)
                 (filter (\<lambda>p. p \<notin> set (map concat (f0 # fs))) (map mc_concat mc))
          else Inl KeyError) = Inl e0" ..
  from match_across_runs_rows_error [OF assms(6,7) this]
  obtain e' where "match_across_runs_rows E s idx mc (f0 # fs) q u = Inl e'" ..
  then show ?thesis by (simp add: filter_current_fraction_psms_eq b filt1)
qed

lemma ex_no_overlap_eval:
  "map_sum id (\<lambda>s1. map_sum id (\<lambda>s'.
       (map concat (curr_frac_id_df s1),
        map (\<lambda>r. (concat r, sample r)) (curr_frac_filtered_id_df s'),
        map concat (other_sample_df ex_env s1 0 (1/100) True ''C''),
        map concat (other_sample_df ex_env s1 0 (1/100) True ''A''),
        ''C'' \<in> set (map sample (master_id_df s1)),
        filter_current_fraction_psms ex_env s1 (1/100) True True True))
       (filter_current_fraction_psms ex_env s1 (1/100) True True False))
     (prepare ex_env ex_no_overlap (1/100) True (1/4) ''B'' 0) =
   Inr (Inr ([''AAK_2''], [(''AAK_2'', ''B'')], [''PEPTIDE_2''], [''AAK_2'', ''PEPTIDE_2''],
             True, Inl ValueError))"
  by code_simp

text \<open>
  C2 as stated fails: sample C shares no key with the filtered set of sample B, sample A
  shares one. The claim has the engine skip C and aggregate A's prediction; the call
  raises \<^verbatim>\<open>ValueError\<close> instead, from the fit on C's empty training set.
\<close>

theorem C2_no_skip_counterexample:
  "\<exists>s1 s'. prepare ex_env ex_no_overlap (1/100) True (1/4) ''B'' 0 = Inr s1 \<and>
     filter_current_fraction_psms ex_env s1 (1/100) True True False = Inr s' \<and>
     set (map concat (other_sample_df ex_env s1 0 (1/100) True ''C'')) \<inter>
       set (map concat (curr_frac_filtered_id_df s')) = {} \<and>
     set (map concat (other_sample_df ex_env s1 0 (1/100) True ''A'')) \<inter>
       set (map concat (curr_frac_filtered_id_df s')) = {''AAK_2''} \<and>
     filter_current_fraction_psms ex_env s1 (1/100) True True True = Inl ValueError"
proof -
  obtain s1 where s1: "prepare ex_env ex_no_overlap (1/100) True (1/4) ''B'' 0 = Inr s1"
    and f: "map_sum id (\<lambda>s'.
       (map concat (curr_frac_id_df s1),
        map (\<lambda>r. (concat r, sample r)) (curr_frac_filtered_id_df s'),
        map concat (other_sample_df ex_env s1 0 (1/100) True ''C''),
        map concat (other_sample_df ex_env s1 0 (1/100) True ''A''),
        ''C'' \<in> set (map sample (master_id_df s1)),
        filter_current_fraction_psms ex_env s1 (1/100) True True True))
       (filter_current_fraction_psms ex_env s1 (1/100) True True False) =
      Inr ([''AAK_2''], [(''AAK_2'', ''B'')], [''PEPTIDE_2''], [''AAK_2'', ''PEPTIDE_2''],
             True, Inl ValueError)"
    by (rule map_sum_InrE [OF ex_no_overlap_eval])
  obtain s' where s': "filter_current_fraction_psms ex_env s1 (1/100) True True False = Inr s'"
    and v: "(map concat (curr_frac_id_df s1),
        map (\<lambda>r. (concat r, sample r)) (curr_frac_filtered_id_df s'),
        map concat (other_sample_df ex_env s1 0 (1/100) True ''C''),
        map concat (other_sample_df ex_env s1 0 (1/100) True ''A''),
        ''C'' \<in> set (map sample (master_id_df s1)),
        filter_current_fraction_psms ex_env s1 (1/100) True True True) =
      ([''AAK_2''], [(''AAK_2'', ''B'')], [''PEPTIDE_2''], [''AAK_2'', ''PEPTIDE_2''],
             True, Inl ValueError)"
    by (rule map_sum_InrE [OF f])
  from v have k: "map concat (curr_frac_filtered_id_df s') = [''AAK_2'']"
    by (auto simp: map_eq_Cons_conv)
  from v have c: "map concat (other_sample_df ex_env s1 0 (1/100) True ''C'') = [''PEPTIDE_2'']"
    and a: "map concat (other_sample_df ex_env s1 0 (1/100) True ''A'') = [''AAK_2'', ''PEPTIDE_2'']"
    and r: "filter_current_fraction_psms ex_env s1 (1/100) True True True = Inl ValueError"
    by simp_all
  have "set (map concat (other_sample_df ex_env s1 0 (1/100) True ''C'')) \<inter>
       set (map concat (curr_frac_filtered_id_df s')) = {}"
    unfolding k c by simp
  moreover have "set (map concat (other_sample_df ex_env s1 0 (1/100) True ''A'')) \<inter>
       set (map concat (curr_frac_filtered_id_df s')) = {''AAK_2''}"
    unfolding k a by auto
  ultimately show ?thesis using s1 s' r by (intro exI [of _ s1] exI [of _ s'] conjI)
qed

theorem C2_empty_training_raises_witness:
  "fit ex_env [] = Inl ValueError \<and>
   (\<exists>s1 s' r0 f0. prepare ex_env ex_no_overlap (1/100) True (1/4) ''B'' 0 = Inr s1 \<and>
      filter_current_fraction_psms ex_env s1 (1/100) True True False = Inr s' \<and>
      curr_frac_id_df s1 = [r0] \<and> curr_frac_filtered_id_df s' = [f0] \<and>
      ''C'' \<in> set (map sample (master_id_df s1)) \<and> ''C'' \<noteq> sample f0 \<and>
      set (map concat (other_sample_df ex_env s1 (file_idx r0) (1/100) True ''C'')) \<inter>
        set (map concat (curr_frac_filtered_id_df s')) = {} \<and>
      (\<exists>e'. filter_current_fraction_psms ex_env s1 (1/100) True True True = Inl e'))"
proof -
  have fit0: "fit ex_env [] = Inl ValueError" by (simp add: ex_env_def mean_fit_def)
  obtain s1 where s1: "prepare ex_env ex_no_overlap (1/100) True (1/4) ''B'' 0 = Inr s1"
    and f: "map_sum id (\<lambda>s'.
       (map concat (curr_frac_id_df s1),
        map (\<lambda>r. (concat r, sample r)) (curr_frac_filtered_id_df s'),
        map concat (other_sample_df ex_env s1 0 (1/100) True ''C''),
        map concat (other_sample_df ex_env s1 0 (1/100) True ''A''),
        ''C'' \<in> set (map sample (master_id_df s1)),
        filter_current_fraction_psms ex_env s1 (1/100) True True True))
       (filter_current_fraction_psms ex_env s1 (1/100) True True False) =
      Inr ([''AAK_2''], [(''AAK_2'', ''B'')], [''PEPTIDE_2''], [''AAK_2'', ''PEPTIDE_2''],
             True, Inl ValueError)"
    by (rule map_sum_InrE [OF ex_no_overlap_eval])
  obtain s' where s': "filter_current_fraction_psms ex_env s1 (1/100) True True False = Inr s'"
    and v: "(map concat (curr_frac_id_df s1),
        map (\<lambda>r. (concat r, sample r)) (curr_frac_filtered_id_df s'),
        map concat (other_sample_df ex_env s1 0 (1/100) True ''C''),
        map concat (other_sample_df ex_env s1 0 (1/100) True ''A''),
        ''C'' \<in> set (map sample (master_id_df s1)),
        filter_current_fraction_psms ex_env s1 (1/100) True True True) =
      ([''AAK_2''], [(''AAK_2'', ''B'')], [''PEPTIDE_2''], [''AAK_2'', ''PEPTIDE_2''],
             True, Inl ValueError)"
    by (rule map_sum_InrE [OF f])
  from v obtain r0 where r0: "curr_frac_id_df s1 = [r0]" by (auto simp: map_eq_Cons_conv)
  from v obtain f0 where f0: "curr_frac_filtered_id_df s' = [f0]" "concat f0 = ''AAK_2''"
    "sample f0 = ''B''" by (auto simp: map_eq_Cons_conv)
  from v have c: "map concat (other_sample_df ex_env s1 0 (1/100) True ''C'') = [''PEPTIDE_2'']"
    and m: "''C'' \<in> set (map sample (master_id_df s1))" by simp_all
  have ne: "''C'' \<noteq> sample f0" by (simp add: f0(3))
  from s1 obtain sa where "get_current_fraction_psms ex_env sa 0 = Inr s1"
    by (auto simp: prepare_def split: sum.splits)
  from curr_frac_file_idx [OF ex_env_argsort this, of r0] r0 have i: "file_idx r0 = 0" by simp
  have d: "set (map concat (other_sample_df ex_env s1 (file_idx r0) (1/100) True ''C'')) \<inter>
        set (map concat (curr_frac_filtered_id_df s')) = {}"
    unfolding i c f0(1) by (simp add: f0(2))
  note t = C2_empty_training_raises [OF ex_env_argsort fit0 s' r0 f0(1) m ne d]
  from s1 s' r0 f0(1) m ne d t
  have "\<exists>s1 s' r0 f0. prepare ex_env ex_no_overlap (1/100) True (1/4) ''B'' 0 = Inr s1 \<and>
      filter_current_fraction_psms ex_env s1 (1/100) True True False = Inr s' \<and>
      curr_frac_id_df s1 = [r0] \<and> curr_frac_filtered_id_df s' = [f0] \<and>
      ''C'' \<in> set (map sample (master_id_df s1)) \<and> ''C'' \<noteq> sample f0 \<and>
      set (map concat (other_sample_df ex_env s1 (file_idx r0) (1/100) True ''C'')) \<inter>
        set (map concat (curr_frac_filtered_id_df s')) = {} \<and>
      (\<exists>e'. filter_current_fraction_psms ex_env s1 (1/100) True True True = Inl e')"
    by (intro exI [of _ s1] exI [of _ s'] exI [of _ r0] exI [of _ f0] conjI)
  with fit0 show ?thesis by (rule conjI)
qed

subsection \<open>The aggregated scan\<close>

text \<open>
  C1 (the code at the failing input). In \<open>ex_three\<close> the peers A and C predict the
  scans 100 and 103 for \<open>PEPTIDE_2\<close> in sample B; the median is 101.5 and the
  synthesized row has the scan 101, where rounding to the nearest integer gives 102.
  With the predictions 100 and 104 of the spec's scenario the scan is 102.
\<close>

theorem C1_median_cut_off:
  "map_sum id (\<lambda>s1. (peer_column ex_env (other_sample_df ex_env s1 0 (1/100) True ''A'')
                        (filt1_of ex_env s1 [] (1/100) True True) [''PEPTIDE_2''],
                      peer_column ex_env (other_sample_df ex_env s1 0 (1/100) True ''C'')
                        (filt1_of ex_env s1 [] (1/100) True True) [''PEPTIDE_2'']))
     (prepare ex_env ex_three (1/100) True (1/4) ''B'' 0) =
     Inr (Inr [Some 100], Inr [Some 103]) \<and>
   median [100, 103] = Some (203/2) \<and>
   map_sum id (map (\<lambda>r. (concat r, scan r)))
     (mar_out_df [ex_cand] 0 ''B'' [(''PEPTIDE_2'', [Some 100, Some 103])]) =
     Inr [(''PEPTIDE_2'', 101)] \<and>
   map_sum id (map (\<lambda>r. (concat r, scan r, evidence r)))
     (pipeline ex_env ex_three (1/100) True (1/4) ''B'' 0 True True) =
     Inr [(''AAK_2'', 100, QValue), (''CCK_3'', 103, QValue),
          (''PEPTIDE_2'', 101, MatchAcrossRuns)] \<and>
   map_sum id (map (\<lambda>r. (concat r, scan r)))
     (mar_out_df [ex_cand] 0 ''B'' [(''PEPTIDE_2'', [Some 100, Some 104])]) =
     Inr [(''PEPTIDE_2'', 102)]"
  by (intro conjI; code_simp)

subsection \<open>Ties in the q-value sort\<close>


lemma ex_ties_frac:
  "map_sum id (\<lambda>s'. map scan (filter (\<lambda>r. concat r = ''AK_2'') (curr_frac_id_df s')))
     (get_current_fraction_psms np_env ex_ties 0) = Inr [25]"
  by code_simp

lemma ex_ties_source:
  "map scan (filter (\<lambda>r. concat r = ''AK_2'') (curr_sample_id_df ex_ties)) = [11, 25]"
  "list_all (\<lambda>r. q_value r = 1/1000 \<and> file_idx r = 0) (curr_sample_id_df ex_ties)"
  "map_option scan (find (\<lambda>r. concat r = ''AK_2'')
     (sort_key q_value (curr_sample_id_df ex_ties))) = Some 11"
  by code_simp+

text \<open>
  C4 as stated fails: in a fraction of 18 rows with one q-value, two rows (scans 11 and
  25, in this order) have the key \<open>AK_2\<close>. A stable sort on the q-value leaves the
  rows in source order, so the claim has the row with scan 11 survive; the code sorts
  with NumPy's quicksort, whose partition step moves the row with scan 25 before it,
  and keeps the row with scan 25.
\<close>

theorem C4_unstable_sort_counterexample:
  "\<exists>s'. get_current_fraction_psms np_env ex_ties 0 = Inr s' \<and>
     map scan (filter (\<lambda>r. concat r = ''AK_2'') (curr_frac_id_df s')) = [25] \<and>
     map scan (filter (\<lambda>r. concat r = ''AK_2'') (curr_sample_id_df ex_ties)) = [11, 25] \<and>
     list_all (\<lambda>r. q_value r = 1/1000 \<and> file_idx r = 0) (curr_sample_id_df ex_ties) \<and>
     map_option scan (find (\<lambda>r. concat r = ''AK_2'')
       (sort_key q_value (curr_sample_id_df ex_ties))) = Some 11"
proof -
  obtain s' where "get_current_fraction_psms np_env ex_ties 0 = Inr s'"
    and "map scan (filter (\<lambda>r. concat r = ''AK_2'') (curr_frac_id_df s')) = [25]"
    by (rule map_sum_InrE [OF ex_ties_frac])
  with ex_ties_source show ?thesis by (intro exI [of _ s'] conjI)
qed

end
